theory Spec2Isabelle
  imports Main "HOL-Library.Sublist" "HOL-Library.Word"
begin

section \<open>Strings\<close>

text \<open>
  A JavaScript string is a sequence of 16-bit code units. String literals of the source
  that are plain ASCII are written with \<open>ascii\<close>; the few Latin-1 letters of the
  Portuguese messages are given by their code unit.
\<close>

type_synonym codeunit = "16 word"
type_synonym jsstring = "codeunit list"

definition ascii :: "string \<Rightarrow> jsstring" where
  "ascii s = map of_char s"

text \<open>
  The class \<open>\s\<close> of a regular expression and the characters removed by
  \<open>String.prototype.trim\<close> are the same set: WhiteSpace (TAB, VT, FF, SP, NBSP,
  ZWNBSP and the other space separators) and LineTerminator (LF, CR, LS, PS).
\<close>

definition isSpace :: "codeunit \<Rightarrow> bool" where
  "isSpace c \<longleftrightarrow>
     c \<in> set [0x09, 0x0A, 0x0B, 0x0C, 0x0D, 0x20, 0xA0, 0x1680, 0x2028, 0x2029,
               0x202F, 0x205F, 0x3000, 0xFEFF]
     \<or> (0x2000 \<le> c \<and> c \<le> 0x200A)"

text \<open>\<open>s.trim()\<close>: white space is removed from both ends.\<close>

definition trimStart :: "jsstring \<Rightarrow> jsstring" where
  "trimStart s = dropWhile isSpace s"

definition trimEnd :: "jsstring \<Rightarrow> jsstring" where
  "trimEnd s = rev (dropWhile isSpace (rev s))"

definition trim :: "jsstring \<Rightarrow> jsstring" where
  "trim s = trimEnd (trimStart s)"

section \<open>Code-fence stripping (page.tsx, lines 41 and 67)\<close>

text \<open>
  Both decoders start with
  \<^verbatim>\<open>content.replace(/```json?\s*|\s*```/g, "").trim()\<close>.
  The regular expression has two alternatives, tried in this order at each position:
  three backticks, the letters \<open>jso\<close>, an optional \<open>n\<close> and a greedy run of white
  space; or a greedy run of white space followed by three backticks. Nothing follows the
  greedy parts of the first alternative, and a shorter run of white space in the second
  would be followed by white space and not by a backtick, so neither backtracks.
  \<open>matchFence s\<close> is the match attempt at the start of \<open>s\<close>: the text after the match,
  or \<open>None\<close>. With the flag \<open>g\<close>, \<open>replace\<close> scans from left to right, deletes
  each match and resumes after it; the search moves on by one code unit where nothing
  matches.
\<close>

definition startsWith :: "jsstring \<Rightarrow> jsstring \<Rightarrow> bool" where
  "startsWith s p \<longleftrightarrow> take (length p) s = p"

definition fence :: jsstring where
  "fence = [0x60, 0x60, 0x60]"

definition matchFence :: "jsstring \<Rightarrow> jsstring option" where
  "matchFence s =
     (if startsWith s (fence @ ascii ''jso'') then
        (let r = drop 6 s;
             r' = (if startsWith r (ascii ''n'') then drop 1 r else r)
         in Some (dropWhile isSpace r'))
      else
        (let r = dropWhile isSpace s
         in if startsWith r fence then Some (drop 3 r) else None))"

text \<open>
  The code units a match can consist of: white space, backticks and the letters of
  \<open>json\<close>.
\<close>

definition markerChar :: "codeunit \<Rightarrow> bool" where
  "markerChar c \<longleftrightarrow> isSpace c \<or> c \<in> set (fence @ ascii ''json'')"


lemma startsWith_split: "startsWith s p \<Longrightarrow> s = p @ drop (length p) s"
  unfolding startsWith_def by (metis append_take_drop_id)

lemma matchFence_split:
  assumes "matchFence s = Some r"
  shows "\<exists>m. s = m @ r \<and> m \<noteq> [] \<and> (\<forall>c \<in> set m. markerChar c)"
proof (cases "startsWith s (fence @ ascii ''jso'')")
  case True
  define q where "q = drop 6 s"
  define q' where "q' = (if startsWith q (ascii ''n'') then drop 1 q else q)"
  have r: "r = dropWhile isSpace q'"
    using assms True by (auto simp: matchFence_def q_def q'_def Let_def)
  have len: "length (fence @ ascii ''jso'') = 6" by (simp add: fence_def ascii_def)
  have s: "s = (fence @ ascii ''jso'') @ q"
    using startsWith_split[OF True] unfolding len q_def .
  have "\<exists>n. q = n @ q' \<and> (\<forall>c \<in> set n. markerChar c)"
  proof (cases "startsWith q (ascii ''n'')")
    case True
    have len1: "length (ascii ''n'') = 1" by (simp add: ascii_def)
    have "q = ascii ''n'' @ q'"
      using startsWith_split[OF True] True unfolding len1 q'_def by simp
    moreover have "\<forall>c \<in> set (ascii ''n''). markerChar c"
      by (simp add: markerChar_def ascii_def)
    ultimately show ?thesis by blast
  next
    case False
    then have "q = [] @ q'" by (simp add: q'_def)
    then show ?thesis by (metis empty_iff list.set(1))
  qed
  then obtain n where n: "q = n @ q'" "\<forall>c \<in> set n. markerChar c" by blast
  have q': "q' = takeWhile isSpace q' @ r" by (simp add: r)
  have w: "\<forall>c \<in> set (takeWhile isSpace q'). markerChar c"
    by (auto simp: markerChar_def dest: set_takeWhileD)
  have f: "\<forall>c \<in> set (fence @ ascii ''jso''). markerChar c"
    by (simp add: markerChar_def ascii_def fence_def)
  let ?m = "(fence @ ascii ''jso'') @ n @ takeWhile isSpace q'"
  have "s = ?m @ r" using s n(1) q' by (metis append.assoc)
  moreover have "?m \<noteq> []" by (simp add: fence_def)
  moreover have "\<forall>c \<in> set ?m. markerChar c" using f n(2) w by auto
  ultimately show ?thesis by blast
next
  case False
  define q where "q = dropWhile isSpace s"
  from assms False have sw: "startsWith q fence" and r: "r = drop 3 q"
    by (auto simp: matchFence_def q_def Let_def split: if_splits)
  have len3: "length fence = 3" by (simp add: fence_def)
  have q: "q = fence @ r" using startsWith_split[OF sw] unfolding len3 r .
  have s: "s = takeWhile isSpace s @ q" by (simp add: q_def)
  have w: "\<forall>c \<in> set (takeWhile isSpace s). markerChar c"
    by (auto simp: markerChar_def dest: set_takeWhileD)
  have f: "\<forall>c \<in> set fence. markerChar c"
    by (simp add: markerChar_def fence_def)
  let ?m = "takeWhile isSpace s @ fence"
  have "s = ?m @ r" using s q by (metis append.assoc)
  moreover have "?m \<noteq> []" by (simp add: fence_def)
  moreover have "\<forall>c \<in> set ?m. markerChar c" using f w by auto
  ultimately show ?thesis by blast
qed

lemma matchFence_shorter: "matchFence s = Some r \<Longrightarrow> length r < length s"
proof -
  assume "matchFence s = Some r"
  then obtain m where "s = m @ r" "m \<noteq> []" using matchFence_split by blast
  then show ?thesis by simp
qed

function replaceFences :: "jsstring \<Rightarrow> jsstring" where
  "replaceFences [] = []"
| "replaceFences (c # cs) =
     (case matchFence (c # cs) of
        Some r \<Rightarrow> replaceFences r
      | None \<Rightarrow> c # replaceFences cs)"
  by pat_completeness auto
termination
  by (relation "measure length") (auto dest: matchFence_shorter)

definition stripCodeFence :: "jsstring \<Rightarrow> jsstring" where
  "stripCodeFence content = trim (replaceFences content)"

text \<open>The text has three backticks in a row somewhere.\<close>

fun hasFence :: "jsstring \<Rightarrow> bool" where
  "hasFence [] = False"
| "hasFence (c # cs) = (startsWith (c # cs) fence \<or> hasFence cs)"






section \<open>Numbers\<close>

text \<open>
  A JavaScript number is not-a-number, an infinity or a finite value. The finite values
  that a decimal literal denotes are kept exactly, as \<open>Dec m e\<close> for \<open>m * 10 ^ e\<close> in
  normal form (\<open>m\<close> has no trailing zero, and zero is \<open>Dec 0 0\<close>); rounding to the
  nearest double and the sign of zero are left out.
\<close>

datatype jsnum = NaN | PosInfinity | NegInfinity | Dec int int

function decNorm :: "int \<Rightarrow> int \<Rightarrow> jsnum" where
  "decNorm m e =
     (if m = 0 then Dec 0 0
      else if m mod 10 = 0 then decNorm (m div 10) (e + 1)
      else Dec m e)"
  by pat_completeness auto
termination
  by (relation "measure (\<lambda>(m, e). nat \<bar>m\<bar>)") auto

declare decNorm.simps [simp del]

definition isDigit :: "codeunit \<Rightarrow> bool" where
  "isDigit c \<longleftrightarrow> 0x30 \<le> c \<and> c \<le> 0x39"

definition digitsValue :: "jsstring \<Rightarrow> int" where
  "digitsValue ds = foldl (\<lambda>a c. 10 * a + uint (c - 0x30)) 0 ds"

fun natDigits :: "nat \<Rightarrow> jsstring" where
  "natDigits n =
     (if n < 10 then [0x30 + of_nat n]
      else natDigits (n div 10) @ [0x30 + of_nat (n mod 10)])"

declare natDigits.simps [simp del]

text \<open>
  The exponent part of a numeric literal, shared by \<open>Number\<close> on strings and by
  \<open>JSON.parse\<close>: \<open>e\<close> or \<open>E\<close>, an optional sign and at least one digit. The result
  is the exponent and the text after it; \<open>None\<close> when an exponent starts and is malformed.
\<close>

definition exponentPart :: "jsstring \<Rightarrow> (int \<times> jsstring) option" where
  "exponentPart s =
     (if startsWith s (ascii ''e'') \<or> startsWith s (ascii ''E'') then
        (let r = drop 1 s;
             neg = startsWith r (ascii ''-'');
             r' = (if neg \<or> startsWith r (ascii ''+'') then drop 1 r else r);
             ds = takeWhile isDigit r'
         in if ds = [] then None
            else Some ((if neg then - digitsValue ds else digitsValue ds),
                       dropWhile isDigit r'))
      else Some (0, s))"

text \<open>
  \<open>Number(s)\<close> for a string (StringToNumber): white space is trimmed, the empty string
  is 0, then the text must be a whole StrNumericLiteral: a hexadecimal, octal or binary
  integer, or an optionally signed \<open>Infinity\<close> or decimal literal. Anything else is
  not-a-number.
\<close>

definition radixDigit :: "codeunit \<Rightarrow> int option" where
  "radixDigit c =
     (if 0x30 \<le> c \<and> c \<le> 0x39 then Some (uint (c - 0x30))
      else if 0x61 \<le> c \<and> c \<le> 0x66 then Some (uint (c - 0x61) + 10)
      else if 0x41 \<le> c \<and> c \<le> 0x46 then Some (uint (c - 0x41) + 10)
      else None)"

definition radixLiteral :: "int \<Rightarrow> jsstring \<Rightarrow> jsnum" where
  "radixLiteral b ds =
     (if ds \<noteq> [] \<and> (\<forall>c \<in> set ds. case radixDigit c of None \<Rightarrow> False | Some d \<Rightarrow> d < b)
      then decNorm (foldl (\<lambda>a c. b * a + the (radixDigit c)) 0 ds) 0
      else NaN)"

definition decimalLiteral :: "jsstring \<Rightarrow> jsnum" where
  "decimalLiteral s =
     (let neg = startsWith s (ascii ''-'');
          r = (if neg \<or> startsWith s (ascii ''+'') then drop 1 s else s)
      in if r = ascii ''Infinity'' then (if neg then NegInfinity else PosInfinity)
         else
           (let ip = takeWhile isDigit r;
                r1 = dropWhile isDigit r;
                dot = startsWith r1 (ascii ''.'');
                fp = (if dot then takeWhile isDigit (drop 1 r1) else []);
                r2 = (if dot then dropWhile isDigit (drop 1 r1) else r1)
            in if ip = [] \<and> fp = [] then NaN
               else (case exponentPart r2 of
                       None \<Rightarrow> NaN
                     | Some (ex, rest) \<Rightarrow>
                         if rest \<noteq> [] then NaN
                         else decNorm ((if neg then -1 else 1) * digitsValue (ip @ fp))
                                      (ex - int (length fp)))))"

definition StringToNumber :: "jsstring \<Rightarrow> jsnum" where
  "StringToNumber s =
     (let t = trim s
      in if t = [] then Dec 0 0
         else if startsWith t (ascii ''0x'') \<or> startsWith t (ascii ''0X'')
           then radixLiteral 16 (drop 2 t)
         else if startsWith t (ascii ''0o'') \<or> startsWith t (ascii ''0O'')
           then radixLiteral 8 (drop 2 t)
         else if startsWith t (ascii ''0b'') \<or> startsWith t (ascii ''0B'')
           then radixLiteral 2 (drop 2 t)
         else decimalLiteral t)"

text \<open>
  \<open>String(n)\<close> for a number (Number::toString, radix 10): with \<open>k\<close> digits and the
  decimal point after the \<open>n\<close>-th digit, plain notation for \<open>-6 < n \<le> 21\<close> and
  exponential notation otherwise.
\<close>

definition positiveToString :: "nat \<Rightarrow> int \<Rightarrow> jsstring" where
  "positiveToString m e =
     (let ds = natDigits m;
          k = int (length ds);
          n = k + e
      in if k \<le> n \<and> n \<le> 21 then ds @ replicate (nat (n - k)) 0x30
         else if 0 < n \<and> n \<le> 21 then take (nat n) ds @ ascii ''.'' @ drop (nat n) ds
         else if - 6 < n \<and> n \<le> 0 then ascii ''0.'' @ replicate (nat (- n)) 0x30 @ ds
         else (let ex = (if 0 < n - 1 then ascii ''+'' else ascii ''-'') @ natDigits (nat \<bar>n - 1\<bar>)
               in if k = 1 then ds @ ascii ''e'' @ ex
                  else take 1 ds @ ascii ''.'' @ drop 1 ds @ ascii ''e'' @ ex))"

definition NumberToString :: "jsnum \<Rightarrow> jsstring" where
  "NumberToString x =
     (case x of
        NaN \<Rightarrow> ascii ''NaN''
      | PosInfinity \<Rightarrow> ascii ''Infinity''
      | NegInfinity \<Rightarrow> ascii ''-Infinity''
      | Dec m e \<Rightarrow>
          if m = 0 then ascii ''0''
          else if m < 0 then ascii ''-'' @ positiveToString (nat (- m)) e
          else positiveToString (nat m) e)"

section \<open>JSON values and \<open>JSON.parse\<close>\<close>

text \<open>
  The value \<open>JSON.parse\<close> returns: a scalar, an array, or an object, whose members are
  kept in the order of the text (a repeated key keeps its last value, see \<open>getProp\<close>).
\<close>

datatype json =
    JNull
  | JBool bool
  | JNum jsnum
  | JStr jsstring
  | JArr "json list"
  | JObj "(jsstring \<times> json) list"

text \<open>What a \<open>try\<close> block of the decoders can catch.\<close>

datatype exn = SyntaxError | TypeError

datatype token =
    TLBrace | TRBrace | TLBracket | TRBracket | TColon | TComma
  | TValue json

definition hex4 :: "jsstring \<Rightarrow> codeunit option" where
  "hex4 ds =
     (if length ds = 4 \<and> (\<forall>c \<in> set ds. radixDigit c \<noteq> None)
      then Some (word_of_int (foldl (\<lambda>a c. 16 * a + the (radixDigit c)) 0 ds))
      else None)"

definition escapeChar :: "codeunit \<Rightarrow> codeunit option" where
  "escapeChar e =
     (if e = 0x22 then Some 0x22
      else if e = 0x5C then Some 0x5C
      else if e = 0x2F then Some 0x2F
      else if e = 0x62 then Some 0x08
      else if e = 0x66 then Some 0x0C
      else if e = 0x6E then Some 0x0A
      else if e = 0x72 then Some 0x0D
      else if e = 0x74 then Some 0x09
      else None)"

text \<open>
  The characters of a string literal after its opening quote, up to the closing quote:
  the string and the text after it. A control character, an unknown escape or the end of
  the text is a syntax error.
\<close>

fun lexString :: "jsstring \<Rightarrow> jsstring \<Rightarrow> (jsstring \<times> jsstring) option" where
  "lexString acc [] = None"
| "lexString acc (c # cs) =
     (if c = 0x22 then Some (rev acc, cs)
      else if c = 0x5C then
        (case cs of
           [] \<Rightarrow> None
         | e # es \<Rightarrow>
             if e = 0x75 then
               (case hex4 (take 4 es) of
                  None \<Rightarrow> None
                | Some u \<Rightarrow> lexString (u # acc) (drop 4 es))
             else
               (case escapeChar e of
                  None \<Rightarrow> None
                | Some x \<Rightarrow> lexString (x # acc) es))
      else if c < 0x20 then None
      else lexString (c # acc) cs)"

text \<open>
  A number literal: an optional minus, an integer part without a leading zero, an
  optional fraction and an optional exponent.
\<close>

definition lexNumber :: "jsstring \<Rightarrow> (jsnum \<times> jsstring) option" where
  "lexNumber s =
     (let neg = startsWith s (ascii ''-'');
          r = (if neg then drop 1 s else s);
          ip = takeWhile isDigit r;
          r1 = dropWhile isDigit r;
          dot = startsWith r1 (ascii ''.'');
          fp = (if dot then takeWhile isDigit (drop 1 r1) else []);
          r2 = (if dot then dropWhile isDigit (drop 1 r1) else r1)
      in if ip = [] \<or> (1 < length ip \<and> startsWith ip (ascii ''0'')) \<or> (dot \<and> fp = [])
         then None
         else (case exponentPart r2 of
                 None \<Rightarrow> None
               | Some (ex, rest) \<Rightarrow>
                   Some (decNorm ((if neg then -1 else 1) * digitsValue (ip @ fp))
                                 (ex - int (length fp)), rest)))"

definition jsonSpace :: "codeunit \<Rightarrow> bool" where
  "jsonSpace c \<longleftrightarrow> c = 0x20 \<or> c = 0x09 \<or> c = 0x0A \<or> c = 0x0D"

lemma exponentPart_le: "exponentPart s = Some (ex, rest) \<Longrightarrow> length rest \<le> length s"
  unfolding exponentPart_def Let_def
  by (auto split: if_splits intro: order_trans[OF length_dropWhile_le])

lemma lexNumber_shorter:
  assumes "lexNumber s = Some (n, rest)"
  shows "length rest < length s"
proof -
  define r where "r = (if startsWith s (ascii ''-'') then drop 1 s else s)"
  define r1 where "r1 = dropWhile isDigit r"
  define dot where "dot = startsWith r1 (ascii ''.'')"
  define r2 where "r2 = (if dot then dropWhile isDigit (drop 1 r1) else r1)"
  from assms have ip: "takeWhile isDigit r \<noteq> []"
    unfolding lexNumber_def Let_def r_def by (auto split: if_splits)
  from assms obtain ex where "exponentPart r2 = Some (ex, rest)"
    unfolding lexNumber_def Let_def r_def r1_def dot_def r2_def
    by (auto split: if_splits option.splits)
  then have "length rest \<le> length r2" by (rule exponentPart_le)
  moreover have "length r2 \<le> length r1"
  proof -
    have "length (dropWhile isDigit (drop 1 r1)) \<le> length (drop 1 r1)"
      by (rule length_dropWhile_le)
    also have "\<dots> \<le> length r1" by simp
    finally show ?thesis by (simp add: r2_def)
  qed
  moreover have "length r1 < length r"
  proof -
    have "length r = length (takeWhile isDigit r) + length r1"
      unfolding r1_def by (metis length_append takeWhile_dropWhile_id)
    with ip show ?thesis by simp
  qed
  moreover have "length r \<le> length s" unfolding r_def by simp
  ultimately show ?thesis by linarith
qed

lemma lexString_shorter: "lexString acc s = Some (str, rest) \<Longrightarrow> length rest < length s"
proof (induction acc s rule: lexString.induct)
  case (1 acc)
  then show ?case by simp
next
  case (2 acc c cs)
  show ?case
  proof (cases "c = 0x22")
    case True
    with 2(4) show ?thesis by simp
  next
    case nq: False
    show ?thesis
    proof (cases "c = 0x5C")
      case bs: True
      show ?thesis
      proof (cases cs)
        case Nil
        with 2(4) nq bs show ?thesis by simp
      next
        case (Cons e es)
        show ?thesis
        proof (cases "e = 0x75")
          case True
          with 2(4) nq bs Cons obtain u where u: "hex4 (take 4 es) = Some u"
            and l: "lexString (u # acc) (drop 4 es) = Some (str, rest)"
            by (auto split: option.splits)
          have "length rest < length (drop 4 es)"
            using 2(1)[OF nq bs Cons True u l] .
          with Cons show ?thesis by simp
        next
          case False
          with 2(4) nq bs Cons obtain x where x: "escapeChar e = Some x"
            and l: "lexString (x # acc) es = Some (str, rest)"
            by (auto split: option.splits)
          have "length rest < length es"
            using 2(2)[OF nq bs Cons False x l] .
          with Cons show ?thesis by simp
        qed
      qed
    next
      case nb: False
      with 2(4) nq have c: "\<not> c < 0x20" and l: "lexString (c # acc) cs = Some (str, rest)"
        by (auto split: if_splits)
      have "length rest < length cs" using 2(3)[OF nq nb c l] .
      then show ?thesis by simp
    qed
  qed
qed

text \<open>The tokens of a JSON text; \<open>None\<close> where no token starts.\<close>

function jsonTokens :: "jsstring \<Rightarrow> token list option" where
  "jsonTokens [] = Some []"
| "jsonTokens (c # cs) =
     (if jsonSpace c then jsonTokens cs
      else if c = 0x7B then map_option (Cons TLBrace) (jsonTokens cs)
      else if c = 0x7D then map_option (Cons TRBrace) (jsonTokens cs)
      else if c = 0x5B then map_option (Cons TLBracket) (jsonTokens cs)
      else if c = 0x5D then map_option (Cons TRBracket) (jsonTokens cs)
      else if c = 0x3A then map_option (Cons TColon) (jsonTokens cs)
      else if c = 0x2C then map_option (Cons TComma) (jsonTokens cs)
      else if c = 0x22 then
        (case lexString [] cs of
           None \<Rightarrow> None
         | Some (str, rest) \<Rightarrow> map_option (Cons (TValue (JStr str))) (jsonTokens rest))
      else if c = 0x2D \<or> isDigit c then
        (case lexNumber (c # cs) of
           None \<Rightarrow> None
         | Some (n, rest) \<Rightarrow> map_option (Cons (TValue (JNum n))) (jsonTokens rest))
      else if startsWith (c # cs) (ascii ''true'')
        then map_option (Cons (TValue (JBool True))) (jsonTokens (drop 3 cs))
      else if startsWith (c # cs) (ascii ''false'')
        then map_option (Cons (TValue (JBool False))) (jsonTokens (drop 4 cs))
      else if startsWith (c # cs) (ascii ''null'')
        then map_option (Cons (TValue JNull)) (jsonTokens (drop 3 cs))
      else None)"
  by pat_completeness auto
termination
  by (relation "measure length")
     (auto dest: lexString_shorter lexNumber_shorter intro: less_SucI)

text \<open>
  The grammar of values over the tokens, as a machine with a stack of the arrays and
  objects that are still open (their members so far in reverse order; \<open>FKey\<close> is an
  object whose next value belongs to the given key).
\<close>

datatype frame =
    FArr "json list"
  | FObj "(jsstring \<times> json) list"
  | FKey "(jsstring \<times> json) list" jsstring

datatype expect = EValue | EFirstElem | EFirstKey | EKey | EColon | EAfter | EDone json

definition complete :: "frame list \<Rightarrow> json \<Rightarrow> (frame list \<times> expect) option" where
  "complete st v =
     (case st of
        [] \<Rightarrow> Some ([], EDone v)
      | FArr es # r \<Rightarrow> Some (FArr (v # es) # r, EAfter)
      | FKey ms k # r \<Rightarrow> Some (FObj ((k, v) # ms) # r, EAfter)
      | FObj ms # r \<Rightarrow> None)"

definition startValue :: "frame list \<Rightarrow> token \<Rightarrow> (frame list \<times> expect) option" where
  "startValue st t =
     (case t of
        TValue v \<Rightarrow> complete st v
      | TLBracket \<Rightarrow> Some (FArr [] # st, EFirstElem)
      | TLBrace \<Rightarrow> Some (FObj [] # st, EFirstKey)
      | _ \<Rightarrow> None)"

definition startKey :: "frame list \<Rightarrow> token \<Rightarrow> (frame list \<times> expect) option" where
  "startKey st t =
     (case (st, t) of
        (FObj ms # r, TValue (JStr k)) \<Rightarrow> Some (FKey ms k # r, EColon)
      | _ \<Rightarrow> None)"

definition step :: "frame list \<times> expect \<Rightarrow> token \<Rightarrow> (frame list \<times> expect) option" where
  "step s t =
     (case s of (st, e) \<Rightarrow>
        (case e of
           EValue \<Rightarrow> startValue st t
         | EFirstElem \<Rightarrow>
             (if t = TRBracket then complete (tl st) (JArr []) else startValue st t)
         | EFirstKey \<Rightarrow>
             (if t = TRBrace then complete (tl st) (JObj []) else startKey st t)
         | EKey \<Rightarrow> startKey st t
         | EColon \<Rightarrow> (if t = TColon then Some (st, EValue) else None)
         | EAfter \<Rightarrow>
             (case (st, t) of
                (FArr es # r, TComma) \<Rightarrow> Some (st, EValue)
              | (FArr es # r, TRBracket) \<Rightarrow> complete r (JArr (rev es))
              | (FObj ms # r, TComma) \<Rightarrow> Some (st, EKey)
              | (FObj ms # r, TRBrace) \<Rightarrow> complete r (JObj (rev ms))
              | _ \<Rightarrow> None)
         | EDone v \<Rightarrow> None))"

fun parseTokens :: "frame list \<times> expect \<Rightarrow> token list \<Rightarrow> json option" where
  "parseTokens s [] = (case s of ([], EDone v) \<Rightarrow> Some v | _ \<Rightarrow> None)"
| "parseTokens s (t # ts) =
     (case step s t of None \<Rightarrow> None | Some s' \<Rightarrow> parseTokens s' ts)"

text \<open>\<open>JSON.parse(text)\<close>: the value, or the SyntaxError it throws.\<close>

definition JSON_parse :: "jsstring \<Rightarrow> exn + json" where
  "JSON_parse text =
     (case jsonTokens text of
        None \<Rightarrow> Inl SyntaxError
      | Some ts \<Rightarrow>
          (case parseTokens ([], EValue) ts of
             None \<Rightarrow> Inl SyntaxError
           | Some v \<Rightarrow> Inr v))"

section \<open>Coercions and property access\<close>

text \<open>
  \<open>String(v)\<close>. An array is joined with commas (\<open>null\<close> elements as empty strings).
  An object is converted through its \<open>toString\<close> method: a parsed object inherits the
  method of \<open>Object.prototype\<close>, unless it has a member of that name, which is never
  callable; then \<open>valueOf\<close> is tried and returns no primitive, and the conversion
  throws a TypeError.
\<close>

fun ToString :: "json \<Rightarrow> exn + jsstring"
  and joinElems :: "json list \<Rightarrow> exn + jsstring" where
  "ToString JNull = Inr (ascii ''null'')"
| "ToString (JBool b) = Inr (if b then ascii ''true'' else ascii ''false'')"
| "ToString (JNum n) = Inr (NumberToString n)"
| "ToString (JStr s) = Inr s"
| "ToString (JArr xs) = joinElems xs"
| "ToString (JObj ms) =
     (if ascii ''toString'' \<in> set (map fst ms) then Inl TypeError
      else Inr (ascii ''[object Object]''))"
| "joinElems [] = Inr []"
| "joinElems (x # xs) =
     (case (if x = JNull then Inr [] else ToString x) of
        Inl e \<Rightarrow> Inl e
      | Inr a \<Rightarrow>
          if xs = [] then Inr a
          else (case joinElems xs of
                  Inl e \<Rightarrow> Inl e
                | Inr b \<Rightarrow> Inr (a @ ascii '','' @ b)))"

text \<open>
  \<open>Number(v)\<close>, where \<open>None\<close> is \<open>undefined\<close>. An array or object is first converted
  to a primitive, which is the string above (\<open>valueOf\<close> returns the object itself).
\<close>

definition ToNumber :: "json option \<Rightarrow> exn + jsnum" where
  "ToNumber v =
     (case v of
        None \<Rightarrow> Inr NaN
      | Some JNull \<Rightarrow> Inr (Dec 0 0)
      | Some (JBool b) \<Rightarrow> Inr (if b then Dec 1 0 else Dec 0 0)
      | Some (JNum n) \<Rightarrow> Inr n
      | Some (JStr s) \<Rightarrow> Inr (StringToNumber s)
      | Some x \<Rightarrow> (case ToString x of Inl e \<Rightarrow> Inl e | Inr s \<Rightarrow> Inr (StringToNumber s)))"

text \<open>\<open>Boolean(v)\<close>, and the truth value that \<open>&&\<close> and \<open>||\<close> test.\<close>

definition ToBoolean :: "json option \<Rightarrow> bool" where
  "ToBoolean v =
     (case v of
        None \<Rightarrow> False
      | Some JNull \<Rightarrow> False
      | Some (JBool b) \<Rightarrow> b
      | Some (JNum n) \<Rightarrow> n \<noteq> NaN \<and> n \<noteq> Dec 0 0
      | Some (JStr s) \<Rightarrow> s \<noteq> []
      | Some x \<Rightarrow> True)"

text \<open>\<open>typeof v === "object"\<close>: true of \<open>null\<close>, arrays and objects.\<close>

definition typeofObject :: "json \<Rightarrow> bool" where
  "typeofObject v = (case v of JNull \<Rightarrow> True | JArr xs \<Rightarrow> True | JObj ms \<Rightarrow> True | _ \<Rightarrow> False)"

text \<open>
  The own properties of a parsed value: the members of an object (the last value of a
  repeated key), the indices and the length of an array. The operator \<open>in\<close> and a
  property read also see inherited properties; \<open>Object.prototype\<close> and
  \<open>Array.prototype\<close> have none under the names the decoders use.
\<close>

definition ownProps :: "json \<Rightarrow> (jsstring \<times> json) list" where
  "ownProps v =
     (case v of
        JObj ms \<Rightarrow> rev ms
      | JArr xs \<Rightarrow> zip (map natDigits [0..<length xs]) xs
                   @ [(ascii ''length'', JNum (decNorm (int (length xs)) 0))]
      | _ \<Rightarrow> [])"

definition hasProperty :: "jsstring \<Rightarrow> json \<Rightarrow> bool" where
  "hasProperty k v \<longleftrightarrow> k \<in> set (map fst (ownProps v))"

definition getProp :: "json \<Rightarrow> jsstring \<Rightarrow> json option" where
  "getProp v k = map_of (ownProps v) k"

text \<open>
  \<open>v ?? d\<close>: the right operand only where the left is \<open>null\<close> or \<open>undefined\<close>. A number
  is neither, not-a-number included, so on a number \<open>??\<close> returns the left operand.
\<close>

definition nullish :: "json option \<Rightarrow> json \<Rightarrow> json" where
  "nullish v d = (case v of None \<Rightarrow> d | Some JNull \<Rightarrow> d | Some x \<Rightarrow> x)"

definition nullishNum :: "jsnum \<Rightarrow> jsnum \<Rightarrow> jsnum" where
  "nullishNum n d = n"

text \<open>The value is an object of the JSON text, not an array and not a scalar.\<close>

definition isJObj :: "json \<Rightarrow> bool" where
  "isJObj v = (case v of JObj ms \<Rightarrow> True | _ \<Rightarrow> False)"

text \<open>A property name that does not start with a digit, so that it is no array index.\<close>

definition startsWithLetter :: "jsstring \<Rightarrow> bool" where
  "startsWithLetter k \<longleftrightarrow> (case k of [] \<Rightarrow> False | c # cs \<Rightarrow> \<not> isDigit c)"

definition bindE :: "exn + 'a \<Rightarrow> ('a \<Rightarrow> exn + 'b) \<Rightarrow> exn + 'b" where
  "bindE m f = (case m of Inl e \<Rightarrow> Inl e | Inr x \<Rightarrow> f x)"

section \<open>The decoders (page.tsx, lines 40 to 87)\<close>

record Explained =
  corrected :: jsstring
  translation :: jsstring
  explanation :: jsstring
  naturalSuggestion :: jsstring
  score :: jsnum

record InformalResponse =
  informal :: jsstring
  alreadyCorrect :: bool
  translation :: jsstring

text \<open>
  The body of the \<open>try\<close> block of \<open>parseExplained\<close>: an exception of \<open>JSON.parse\<close> or
  of a conversion, the object literal, or falling through to \<open>return null\<close>.
\<close>

definition parseExplained_try :: "jsstring \<Rightarrow> exn + Explained option" where
  "parseExplained_try raw =
     bindE (JSON_parse raw) (\<lambda>obj.
       if ToBoolean (Some obj) \<and> typeofObject obj
          \<and> hasProperty (ascii ''corrected'') obj
          \<and> hasProperty (ascii ''explanation'') obj
          \<and> hasProperty (ascii ''naturalSuggestion'') obj
          \<and> hasProperty (ascii ''score'') obj
       then
         bindE (ToString (nullish (getProp obj (ascii ''corrected'')) (JStr []))) (\<lambda>c.
         bindE (ToString (nullish (getProp obj (ascii ''translation'')) (JStr []))) (\<lambda>t.
         bindE (ToString (nullish (getProp obj (ascii ''explanation'')) (JStr []))) (\<lambda>x.
         bindE (ToString (nullish (getProp obj (ascii ''naturalSuggestion'')) (JStr []))) (\<lambda>n.
         bindE (ToNumber (getProp obj (ascii ''score''))) (\<lambda>sc.
           Inr (Some \<lparr> corrected = c, Explained.translation = t, explanation = x,
                        naturalSuggestion = n, score = nullishNum sc (Dec 0 0) \<rparr>))))))
       else Inr None)"

definition parseExplained :: "jsstring \<Rightarrow> Explained option" where
  "parseExplained content =
     (let raw = stripCodeFence content
      in case parseExplained_try raw of Inl e \<Rightarrow> None | Inr r \<Rightarrow> r)"

definition parseInformal_try :: "jsstring \<Rightarrow> exn + InformalResponse option" where
  "parseInformal_try raw =
     bindE (JSON_parse raw) (\<lambda>obj.
       if ToBoolean (Some obj) \<and> typeofObject obj
          \<and> hasProperty (ascii ''informal'') obj
          \<and> hasProperty (ascii ''alreadyCorrect'') obj
          \<and> hasProperty (ascii ''translation'') obj
       then
         bindE (ToString (nullish (getProp obj (ascii ''informal'')) (JStr []))) (\<lambda>i.
         bindE (ToString (nullish (getProp obj (ascii ''translation'')) (JStr []))) (\<lambda>t.
           Inr (Some \<lparr> informal = i,
                        alreadyCorrect = ToBoolean (getProp obj (ascii ''alreadyCorrect'')),
                        InformalResponse.translation = t \<rparr>)))
       else Inr None)"

definition parseInformal :: "jsstring \<Rightarrow> InformalResponse option" where
  "parseInformal content =
     (let raw = stripCodeFence content
      in case parseInformal_try raw of Inl e \<Rightarrow> None | Inr r \<Rightarrow> r)"

section \<open>Modes and languages\<close>

text \<open>
  Modelled from the spec: the types \<open>TutorLanguage\<close> and \<open>TutorMode\<close> are imported from
  \<open>@/types/tutor\<close>, which is not among the sources. The spec gives the language as one
  of \<open>en\<close>, \<open>de\<close> and the mode as one of \<open>translate\<close>, \<open>explain\<close>, \<open>correct\<close>,
  \<open>informal\<close>, which are also the values that \<open>LANG_OPTIONS\<close>, \<open>MODE_OPTIONS\<close> and
  \<open>systemPrompt\<close> use.
\<close>

datatype TutorLanguage = En | De

datatype TutorMode = Translate | Explain | Correct | Informal

section \<open>Rendering an assistant message (page.tsx, lines 627 to 739)\<close>

text \<open>
  What \<open>AssistantMessage\<close> shows: the card of an explained answer, the card of an
  informal answer, or the text as it is. Each comes with its speak button, when there is
  one: the text and the language handed to \<open>onSpeak\<close>.
\<close>

datatype rendered =
    ExplainedCard Explained "(jsstring \<times> TutorLanguage) option"
  | InformalCard InformalResponse "(jsstring \<times> TutorLanguage) option"
  | RawText jsstring "(jsstring \<times> TutorLanguage) option"

definition speakButton :: "jsstring \<Rightarrow> TutorLanguage \<Rightarrow> (jsstring \<times> TutorLanguage) option" where
  "speakButton text lang = (if text \<noteq> [] then Some (text, lang) else None)"

definition AssistantMessage :: "jsstring \<Rightarrow> TutorMode \<Rightarrow> TutorLanguage \<Rightarrow> rendered" where
  "AssistantMessage content mode lang =
     (let explained = (if mode = Explain then parseExplained content else None);
          informalR = (if mode = Informal then parseInformal content else None);
          ttsText =
            (case explained of
               Some e \<Rightarrow> (if naturalSuggestion e \<noteq> [] then naturalSuggestion e else corrected e)
             | None \<Rightarrow> (case informalR of Some i \<Rightarrow> informal i | None \<Rightarrow> content))
      in case explained of
           Some e \<Rightarrow> ExplainedCard e (speakButton ttsText lang)
         | None \<Rightarrow>
             (case informalR of
                Some i \<Rightarrow> InformalCard i (speakButton (informal i) En)
              | None \<Rightarrow> RawText content (speakButton content lang)))"

section \<open>The tutor endpoint (api/tutor/route.ts)\<close>

text \<open>
  A value caught by \<open>catch (err)\<close>: an \<open>Error\<close> with its message, or anything else.
\<close>

datatype thrown = ErrorObj jsstring | OtherThrown

datatype Role = System | User | Assistant

record Message =
  role :: Role
  content :: jsstring

record RequestBody =
  language :: TutorLanguage
  mode :: TutorMode
  messages :: "Message list"

record CompletionParams =
  model :: jsstring
  messages :: "Message list"
  temperature :: jsnum

text \<open>
  The completion of the provider, as far as the endpoint reads it: the choices, each with
  a message that may be missing, whose content may be \<open>null\<close>.
\<close>

datatype ChoiceMessage = ChoiceMessage "jsstring option"

datatype Choice = Choice "ChoiceMessage option"

record ChatCompletion =
  choices :: "Choice list"

datatype ResponseBody = ContentBody jsstring | ErrorBody jsstring

record Response =
  status :: nat
  body :: ResponseBody

text \<open>
  \<open>getGroq\<close> reads the key from the environment (\<open>None\<close>: not set; the empty string
  is falsy too) and gives the client, which is modelled by the key it holds.
\<close>

definition getGroq :: "jsstring option \<Rightarrow> thrown + jsstring" where
  \<open>getGroq key =
     (case key of
        None \<Rightarrow> Inl (ErrorObj (ascii ''GROQ_API_KEY n'' @ [0xE3] @ ascii ''o configurada.''))
      | Some k \<Rightarrow>
          if k = [] then Inl (ErrorObj (ascii ''GROQ_API_KEY n'' @ [0xE3] @ ascii ''o configurada.''))
          else Inr k)\<close>

definition GROQ_MODEL :: jsstring where
  "GROQ_MODEL = ascii ''llama-3.1-8b-instant''"

definition systemPrompt :: "TutorLanguage \<Rightarrow> TutorMode \<Rightarrow> jsstring" where
  \<open>systemPrompt lang m =
     (let langName = (if lang = En then ascii ''ingl'' @ [0xEA] @ ascii ''s''
                      else ascii ''alem'' @ [0xE3] @ ascii ''o'');
          targetLang = (if lang = En then ascii ''English'' else ascii ''German'')
      in case m of
        Translate \<Rightarrow>
            ascii ''You are a translator. The user will write in any language (often ''
          @ ascii ''Portuguese). Your ONLY task is to respond with the translation ''
          @ ascii ''into ''
          @ targetLang
          @ ascii ''. Do not correct, explain, or add anything. Just the translation.''
      | Explain \<Rightarrow>
            ascii ''You are a friendly ''
          @ langName
          @ ascii '' language tutor. The user may write in Portuguese or ''
          @ targetLang
          @ ascii ''.''
          @ [0x0A]
          @ ascii ''For each message you must respond with a JSON object (no ''
          @ ascii ''markdown, no extra text) with exactly these keys:''
          @ [0x0A]
          @ ascii ''- "corrected": string - the corrected version of what they wrote ''
          @ ascii ''(in ''
          @ targetLang
          @ ascii '')''
          @ [0x0A]
          @ ascii ''- "translation": string - if they wrote in Portuguese, the ''
          @ ascii ''translation to ''
          @ targetLang
          @ ascii ''; otherwise empty string''
          @ [0x0A]
          @ ascii ''- "explanation": string - brief explanation of what was wrong and ''
          @ ascii ''why (in Portuguese)''
          @ [0x0A]
          @ ascii ''- "naturalSuggestion": string - a more natural or idiomatic ''
          @ ascii ''version of the phrase in ''
          @ targetLang
          @ [0x0A]
          @ ascii ''- "score": number - a grade from 0 to 10 for their attempt''
          @ [0x0A, 0x0A]
          @ ascii ''Example format: ''
          @ ascii ''{"corrected":"...","translation":"...","explanation":"...","natura''
          @ ascii ''lSuggestion":"...","score":7}''
      | Correct \<Rightarrow>
            ascii ''The user will write in English. Your ONLY task is to respond with ''
          @ ascii ''the corrected English text. Do not explain, translate, or add ''
          @ ascii ''anything. Just the corrected sentence.''
      | Informal \<Rightarrow>
            ascii ''The user will send you phrases in English. Your tasks:''
          @ [0x0A]
          @ ascii ''1. Rewrite the phrase in the most informal, casual, day-to-day ''
          @ ascii ''English possible. Use contractions, slang, and natural spoken ''
          @ ascii ''English. If the phrase is already correct and casual, keep it as ''
          @ ascii ''is.''
          @ [0x0A]
          @ ascii ''2. If the original phrase was already correct and natural, set ''
          @ ascii ''"alreadyCorrect" to true; otherwise false.''
          @ [0x0A]
          @ ascii ''3. Provide the translation to Portuguese (Brazil).''
          @ [0x0A, 0x0A]
          @ ascii ''Respond with a JSON object only (no markdown, no extra text), ''
          @ ascii ''with exactly these keys:''
          @ [0x0A]
          @ ascii ''- "informal": string - the phrase in casual/informal English''
          @ [0x0A]
          @ ascii ''- "alreadyCorrect": boolean - true if the original was already ''
          @ ascii ''correct and casual''
          @ [0x0A]
          @ ascii ''- "translation": string - translation to Portuguese (Brazil)''
          @ [0x0A, 0x0A]
          @ ascii ''Example: {"informal":"Yeah, that''
          @ [0x27]
          @ ascii ''s totally fine by me.","alreadyCorrect":false,"translation":"Sim, ''
          @ ascii ''pra mim t''
          @ [0xE1]
          @ ascii '' tranquilo."}'')\<close>

text \<open>
  \<open>completion.choices[0]?.message?.content?.trim() ?? ""\<close>: the trimmed content of the
  first choice, and the empty string where a link of the chain is missing.
\<close>

definition firstContent :: "ChatCompletion \<Rightarrow> jsstring" where
  "firstContent completion =
     (case choices completion of
        [] \<Rightarrow> []
      | Choice None # _ \<Rightarrow> []
      | Choice (Some (ChoiceMessage None)) # _ \<Rightarrow> []
      | Choice (Some (ChoiceMessage (Some text))) # _ \<Rightarrow> trim text)"

definition errorResponse :: "thrown \<Rightarrow> Response" where
  "errorResponse err =
     \<lparr> status = 500,
       body = ErrorBody (case err of
                           ErrorObj msg \<Rightarrow> msg
                         | OtherThrown \<Rightarrow> ascii ''Erro ao processar.'') \<rparr>"

text \<open>
  \<open>POST\<close>. The inputs are the key of the environment, the outcome of \<open>req.json()\<close> and
  the provider: what \<open>groq.chat.completions.create\<close> does with a client and its
  parameters, a completion or a thrown value. The result is the response together with
  the calls that were sent to the provider, in order. Every exception of the \<open>try\<close> block
  ends in the \<open>catch\<close> block, which also writes the error to the console.
\<close>

definition POST ::
  "jsstring option \<Rightarrow> thrown + RequestBody
   \<Rightarrow> (jsstring \<Rightarrow> CompletionParams \<Rightarrow> thrown + ChatCompletion)
   \<Rightarrow> Response \<times> CompletionParams list" where
  "POST key reqJson provider =
     (case reqJson of
        Inl err \<Rightarrow> (errorResponse err, [])
      | Inr b \<Rightarrow>
          (case getGroq key of
             Inl err \<Rightarrow> (errorResponse err, [])
           | Inr groq \<Rightarrow>
               (let system = systemPrompt (language b) (mode b);
                    chatMessages =
                      \<lparr> role = System, content = system \<rparr>
                      # map (\<lambda>m. \<lparr> role = role m, content = content m \<rparr>)
                            (RequestBody.messages b);
                    params = \<lparr> model = GROQ_MODEL,
                               CompletionParams.messages = chatMessages,
                               temperature = Dec 3 (- 1) \<rparr>
                in case provider groq params of
                     Inl err \<Rightarrow> (errorResponse err, [params])
                   | Inr completion \<Rightarrow>
                       (\<lparr> status = 200, body = ContentBody (firstContent completion) \<rparr>,
                        [params]))))"

section \<open>The client of the provider\<close>

text \<open>
  \<open>getGroq\<close> builds the client with \<open>new Groq({ apiKey: key })\<close> and no other option,
  so the client of the \<open>groq-sdk\<close> package keeps its defaults, among them two retries.
  One call of \<open>create\<close> sends an HTTP request and sends it again while retries remain
  and the attempt failed in a way the client retries: \<open>fetch\<close> rejected (no connection,
  or a timeout), or the response has status 408, 409, 429 or at least 500, unless the
  header \<open>x-should-retry\<close> says otherwise. The outcome of a request is what \<open>fetch\<close>
  gave: a completion, a response with an error status (with the header, when present, and
  the message of the error the client makes of it), no connection, or a timeout.
  \<open>makeRequest\<close> returns what \<open>create\<close> returns or throws, and the number of requests
  sent so far.
\<close>

datatype fetchOutcome =
    Answered ChatCompletion
  | Refused nat "bool option" jsstring
  | NoConnection
  | TimedOut

definition shouldRetry :: "nat \<Rightarrow> bool option \<Rightarrow> bool" where
  "shouldRetry st hdr =
     (case hdr of
        Some b \<Rightarrow> b
      | None \<Rightarrow> st = 408 \<or> st = 409 \<or> st = 429 \<or> 500 \<le> st)"

fun makeRequest :: "(nat \<Rightarrow> fetchOutcome) \<Rightarrow> nat \<Rightarrow> nat \<Rightarrow> (thrown + ChatCompletion) \<times> nat" where
  "makeRequest fetch sent 0 =
     (case fetch sent of
        Answered completion \<Rightarrow> (Inr completion, Suc sent)
      | Refused st hdr msg \<Rightarrow> (Inl (ErrorObj msg), Suc sent)
      | NoConnection \<Rightarrow> (Inl (ErrorObj (ascii ''Connection error.'')), Suc sent)
      | TimedOut \<Rightarrow> (Inl (ErrorObj (ascii ''Request timed out.'')), Suc sent))"
| "makeRequest fetch sent (Suc retriesRemaining) =
     (case fetch sent of
        Answered completion \<Rightarrow> (Inr completion, Suc sent)
      | Refused st hdr msg \<Rightarrow>
          if shouldRetry st hdr then makeRequest fetch (Suc sent) retriesRemaining
          else (Inl (ErrorObj msg), Suc sent)
      | NoConnection \<Rightarrow> makeRequest fetch (Suc sent) retriesRemaining
      | TimedOut \<Rightarrow> makeRequest fetch (Suc sent) retriesRemaining)"

text \<open>The attempts after which the client sends the request again, while retries remain.\<close>

definition retried :: "fetchOutcome \<Rightarrow> bool" where
  "retried outcome =
     (case outcome of
        Answered completion \<Rightarrow> False
      | Refused st hdr msg \<Rightarrow> shouldRetry st hdr
      | NoConnection \<Rightarrow> True
      | TimedOut \<Rightarrow> True)"

text \<open>
  The network gives the outcome of each request in turn, for the key and the parameters
  it carries. \<open>create\<close> is the call on a client with the default options.
\<close>

definition DEFAULT_MAX_RETRIES :: nat where
  "DEFAULT_MAX_RETRIES = 2"

definition create ::
  "(jsstring \<Rightarrow> CompletionParams \<Rightarrow> nat \<Rightarrow> fetchOutcome) \<Rightarrow> jsstring \<Rightarrow> CompletionParams
   \<Rightarrow> (thrown + ChatCompletion) \<times> nat" where
  "create network groq params = makeRequest (network groq params) 0 DEFAULT_MAX_RETRIES"

text \<open>
  \<open>POST\<close> with this client as the provider: the response, and the number of HTTP
  requests sent for the calls of \<open>create\<close> that \<open>POST\<close> made.
\<close>

definition POST_over_network ::
  "jsstring option \<Rightarrow> thrown + RequestBody
   \<Rightarrow> (jsstring \<Rightarrow> CompletionParams \<Rightarrow> nat \<Rightarrow> fetchOutcome)
   \<Rightarrow> Response \<times> nat" where
  "POST_over_network key reqJson network =
     (let result = POST key reqJson (\<lambda>groq params. fst (create network groq params));
          response = fst result;
          calls = snd result
      in (response,
          (case getGroq key of
             Inl err \<Rightarrow> 0
           | Inr groq \<Rightarrow> sum_list (map (\<lambda>params. snd (create network groq params)) calls))))"

section \<open>Properties of code-fence stripping\<close>

lemma hasFence_append: "hasFence ys \<Longrightarrow> hasFence (xs @ ys)"
  by (induction xs) auto

lemma startsWith_hasFence: "startsWith s fence \<Longrightarrow> hasFence s"
  by (cases s) (auto simp: startsWith_def fence_def)

lemma startsWith_append: "startsWith s (p @ q) \<Longrightarrow> startsWith s p"
  unfolding startsWith_def
proof -
  assume "take (length (p @ q)) s = p @ q"
  then have "take (length p) (take (length (p @ q)) s) = take (length p) (p @ q)" by simp
  then show "take (length p) s = p" by (simp add: min_def)
qed

lemma matchFence_hasFence:
  assumes "matchFence s = Some r"
  shows "hasFence s"
proof (cases "startsWith s (fence @ ascii ''jso'')")
  case True
  then show ?thesis using startsWith_append startsWith_hasFence by blast
next
  case False
  with assms have "startsWith (dropWhile isSpace s) fence"
    by (auto simp: matchFence_def Let_def split: if_splits)
  then have "hasFence (dropWhile isSpace s)" by (rule startsWith_hasFence)
  then have "hasFence (takeWhile isSpace s @ dropWhile isSpace s)" by (rule hasFence_append)
  then show ?thesis by simp
qed

lemma replaceFences_id: "\<not> hasFence s \<Longrightarrow> replaceFences s = s"
proof (induction s)
  case Nil
  then show ?case by simp
next
  case (Cons c cs)
  have "matchFence (c # cs) = None"
  proof (cases "matchFence (c # cs)")
    case (Some r)
    then have "hasFence (c # cs)" by (rule matchFence_hasFence)
    with Cons.prems show ?thesis by blast
  qed simp
  moreover from Cons.prems have "\<not> hasFence cs" by simp
  ultimately show ?case using Cons.IH by simp
qed

lemma length_replaceFences: "length (replaceFences s) \<le> length s"
proof (induction s rule: replaceFences.induct)
  case 1
  then show ?case by simp
next
  case (2 c cs)
  show ?case
  proof (cases "matchFence (c # cs)")
    case None
    with 2 show ?thesis by simp
  next
    case (Some r)
    with 2 have "length (replaceFences r) \<le> length r" by simp
    with Some matchFence_shorter[OF Some] show ?thesis by simp
  qed
qed

lemma fence_not_space: "startsWith s fence \<Longrightarrow> dropWhile isSpace s = s"
  by (cases s) (auto simp: startsWith_def fence_def isSpace_def)

lemma startsWith_matches: "startsWith s fence \<Longrightarrow> \<exists>r. matchFence s = Some r"
proof -
  assume sw: "startsWith s fence"
  then have "dropWhile isSpace s = s" by (rule fence_not_space)
  with sw show ?thesis unfolding matchFence_def Let_def by simp
qed

lemma hasFence_shrinks: "hasFence s \<Longrightarrow> length (replaceFences s) < length s"
proof (induction s rule: replaceFences.induct)
  case 1
  then show ?case by simp
next
  case (2 c cs)
  show ?case
  proof (cases "matchFence (c # cs)")
    case (Some r)
    have "length (replaceFences r) \<le> length r" by (rule length_replaceFences)
    with Some matchFence_shorter[OF Some] show ?thesis by simp
  next
    case None
    have "\<not> startsWith (c # cs) fence"
    proof
      assume "startsWith (c # cs) fence"
      then obtain r where "matchFence (c # cs) = Some r" using startsWith_matches by blast
      with None show False by simp
    qed
    with 2(3) have "hasFence cs" by simp
    with 2(1,2) None have "length (replaceFences cs) < length cs" by blast
    with None show ?thesis by simp
  qed
qed

lemma dropWhile_snoc_keep: "\<not> P a \<Longrightarrow> dropWhile P (xs @ [a]) = dropWhile P xs @ [a]"
  by (induction xs) simp_all

lemma trimEnd_Cons: "\<not> isSpace a \<Longrightarrow> trimEnd (a # w) = a # trimEnd w"
  by (simp add: trimEnd_def dropWhile_snoc_keep)

lemma trimStart_trim: "trimStart (trim s) = trim s"
proof (cases "dropWhile isSpace s")
  case Nil
  have "trim s = trimEnd []" unfolding trim_def trimStart_def Nil ..
  then have "trim s = []" by (simp add: trimEnd_def)
  then show ?thesis by (simp add: trimStart_def)
next
  case (Cons a w)
  have "\<not> isSpace (hd (dropWhile isSpace s))"
    by (rule hd_dropWhile) (simp only: Cons list.distinct not_False_eq_True)
  then have na: "\<not> isSpace a" unfolding Cons by simp
  then have "trimEnd (a # w) = a # trimEnd w" by (rule trimEnd_Cons)
  then have "trim s = a # trimEnd w" unfolding trim_def trimStart_def Cons .
  with na show ?thesis by (simp add: trimStart_def)
qed

lemma trimEnd_idem: "trimEnd (trimEnd s) = trimEnd s"
  by (simp add: trimEnd_def)

lemma trim_idem: "trim (trim s) = trim s"
proof -
  have "trim (trim s) = trimEnd (trimStart (trim s))" by (simp add: trim_def)
  also have "\<dots> = trimEnd (trim s)" by (simp add: trimStart_trim)
  also have "\<dots> = trim s" by (simp add: trim_def trimEnd_idem)
  finally show ?thesis .
qed

lemma length_trim: "length (trim s) \<le> length s"
proof -
  have "length (trimEnd (trimStart s)) \<le> length (trimStart s)"
    using length_dropWhile_le[of isSpace "rev (trimStart s)"] by (simp add: trimEnd_def)
  also have "\<dots> \<le> length s" by (simp add: trimStart_def length_dropWhile_le)
  finally show ?thesis by (simp add: trim_def)
qed

lemma replaceFences_subseq: "subseq (replaceFences s) s"
proof (induction s rule: replaceFences.induct)
  case 1
  then show ?case by simp
next
  case (2 c cs)
  show ?case
  proof (cases "matchFence (c # cs)")
    case None
    with 2 show ?thesis by simp
  next
    case (Some r)
    then obtain m where m: "c # cs = m @ r" using matchFence_split by blast
    have e: "replaceFences (c # cs) = replaceFences r" using Some by simp
    from 2 Some have "subseq (replaceFences r) r" by simp
    then have "subseq (replaceFences r) (m @ r)" by (rule subseq_drop_many)
    then have "subseq (replaceFences (c # cs)) (m @ r)" by (simp only: e)
    then show ?thesis by (simp only: m[symmetric])
  qed
qed

lemma trimStart_subseq: "subseq (trimStart s) s"
proof -
  have "subseq (dropWhile isSpace s) (takeWhile isSpace s @ dropWhile isSpace s)"
    by (rule subseq_drop_many) simp
  then show ?thesis by (simp add: trimStart_def)
qed

lemma trimEnd_subseq: "subseq (trimEnd s) s"
proof -
  have "rev (takeWhile isSpace (rev s) @ dropWhile isSpace (rev s)) = s"
    by (simp only: takeWhile_dropWhile_id rev_rev_ident)
  then have e: "trimEnd s @ rev (takeWhile isSpace (rev s)) = s"
    by (simp only: rev_append trimEnd_def)
  have "subseq (trimEnd s) (trimEnd s @ rev (takeWhile isSpace (rev s)))"
    by (rule subseq_rev_drop_many) simp
  then show ?thesis unfolding e .
qed

lemma trim_subseq: "subseq (trim s) s"
  unfolding trim_def using trimEnd_subseq trimStart_subseq by (rule subseq_order.trans)

lemma stripCodeFence_subseq: "subseq (stripCodeFence s) s"
  unfolding stripCodeFence_def using trim_subseq replaceFences_subseq
  by (rule subseq_order.trans)

lemma filter_markers_empty:
  "\<forall>c \<in> set m. markerChar c \<Longrightarrow> filter (\<lambda>c. \<not> markerChar c) m = []"
  by (induction m) simp_all

lemma replaceFences_filter:
  "filter (\<lambda>c. \<not> markerChar c) (replaceFences s) = filter (\<lambda>c. \<not> markerChar c) s"
proof (induction s rule: replaceFences.induct)
  case 1
  then show ?case by simp
next
  case (2 c cs)
  show ?case
  proof (cases "matchFence (c # cs)")
    case None
    with 2 show ?thesis by simp
  next
    case (Some r)
    then obtain m where m: "c # cs = m @ r" "\<forall>c \<in> set m. markerChar c"
      using matchFence_split by blast
    from 2 Some have "filter (\<lambda>c. \<not> markerChar c) (replaceFences r)
                      = filter (\<lambda>c. \<not> markerChar c) r" by simp
    moreover have "filter (\<lambda>c. \<not> markerChar c) (m @ r) = filter (\<lambda>c. \<not> markerChar c) r"
      using filter_markers_empty[OF m(2)] by simp
    moreover have "replaceFences (c # cs) = replaceFences r" using Some by simp
    ultimately show ?thesis unfolding m(1) by simp
  qed
qed

lemma dropWhile_filter:
  "(\<And>x. P x \<Longrightarrow> \<not> Q x) \<Longrightarrow> filter Q (dropWhile P xs) = filter Q xs"
  by (induction xs) simp_all

lemma trim_filter:
  "filter (\<lambda>c. \<not> markerChar c) (trim s) = filter (\<lambda>c. \<not> markerChar c) s"
proof -
  have d: "filter (\<lambda>c. \<not> markerChar c) (dropWhile isSpace xs)
           = filter (\<lambda>c. \<not> markerChar c) xs" for xs
    by (rule dropWhile_filter) (simp add: markerChar_def)
  have "filter (\<lambda>c. \<not> markerChar c) (trimEnd xs) = filter (\<lambda>c. \<not> markerChar c) xs" for xs
  proof -
    have "filter (\<lambda>c. \<not> markerChar c) (trimEnd xs)
          = rev (filter (\<lambda>c. \<not> markerChar c) (dropWhile isSpace (rev xs)))"
      by (simp add: trimEnd_def rev_filter)
    also have "\<dots> = rev (filter (\<lambda>c. \<not> markerChar c) (rev xs))" by (simp only: d)
    also have "\<dots> = filter (\<lambda>c. \<not> markerChar c) xs" by (simp add: rev_filter)
    finally show ?thesis .
  qed
  then show ?thesis by (simp add: trim_def trimStart_def d)
qed


text \<open>
  The stripping only deletes: the result is a subsequence of the input, the code units
  that can be part of no marker all survive, a text without three backticks in a row only
  loses the white space around it, and one with three backticks in a row comes out
  shorter.
\<close>

lemma stripCodeFence_only_deletes:
  "subseq (stripCodeFence s) s
   \<and> filter (\<lambda>c. \<not> markerChar c) (stripCodeFence s) = filter (\<lambda>c. \<not> markerChar c) s
   \<and> (\<not> hasFence s \<longrightarrow> stripCodeFence s = trim s)
   \<and> (hasFence s \<longrightarrow> length (stripCodeFence s) < length s)"
proof (intro conjI impI)
  show "subseq (stripCodeFence s) s" by (rule stripCodeFence_subseq)
  show "filter (\<lambda>c. \<not> markerChar c) (stripCodeFence s) = filter (\<lambda>c. \<not> markerChar c) s"
    by (simp add: stripCodeFence_def trim_filter replaceFences_filter)
  show "stripCodeFence s = trim s" if "\<not> hasFence s"
    using that by (simp add: stripCodeFence_def replaceFences_id)
  show "length (stripCodeFence s) < length s" if "hasFence s"
    using hasFence_shrinks[OF that] length_trim[of "replaceFences s"]
    by (simp add: stripCodeFence_def)
qed
























text \<open>
  C9, as the code has it. Stripping twice gives the result of stripping once exactly
  when the result of stripping once has no three backticks in a row.
\<close>

theorem strip_idem_iff:
  "stripCodeFence (stripCodeFence s) = stripCodeFence s \<longleftrightarrow> \<not> hasFence (stripCodeFence s)"
proof
  assume eq: "stripCodeFence (stripCodeFence s) = stripCodeFence s"
  show "\<not> hasFence (stripCodeFence s)"
  proof
    assume "hasFence (stripCodeFence s)"
    then have "length (replaceFences (stripCodeFence s)) < length (stripCodeFence s)"
      by (rule hasFence_shrinks)
    moreover have "length (stripCodeFence (stripCodeFence s))
                   \<le> length (replaceFences (stripCodeFence s))"
      unfolding stripCodeFence_def by (rule length_trim)
    ultimately show False using eq by simp
  qed
next
  assume "\<not> hasFence (stripCodeFence s)"
  then have "replaceFences (stripCodeFence s) = stripCodeFence s" by (rule replaceFences_id)
  then have "stripCodeFence (stripCodeFence s) = trim (stripCodeFence s)"
    by (simp add: stripCodeFence_def)
  also have "\<dots> = stripCodeFence s" by (simp add: stripCodeFence_def trim_idem)
  finally show "stripCodeFence (stripCodeFence s) = stripCodeFence s" .
qed

text \<open>The theorem at a fenced answer, where the second stripping changes nothing.\<close>

theorem strip_idem_iff_witness:
  "\<not> hasFence (stripCodeFence (ascii ''```json {x} ```''))
   \<and> stripCodeFence (stripCodeFence (ascii ''```json {x} ```''))
       = stripCodeFence (ascii ''```json {x} ```'')"
  using strip_idem_iff [of "ascii ''```json {x} ```''"]
  by code_simp

text \<open>
  C9 as stated fails: deleting the blank and the first three of the five backticks joins
  the backtick before them with the two after them into a new fence, which a second
  stripping deletes.
\<close>

theorem strip_idem_counterexample:
  "stripCodeFence (ascii ''` `````'') = ascii ''```''
   \<and> stripCodeFence (stripCodeFence (ascii ''` `````'')) = []"
  by code_simp

section \<open>Properties of the decoders\<close>


lemma digit_word: "n < 10 \<Longrightarrow> isDigit (0x30 + of_nat n)"
proof -
  assume "n < 10"
  then have "n \<in> {0, 1, 2, 3, 4, 5, 6, 7, 8, 9}" by auto
  then show ?thesis by (auto simp: isDigit_def)
qed

lemma natDigits_digits: "\<forall>c \<in> set (natDigits n). isDigit c"
proof (induction n rule: natDigits.induct)
  case (1 n)
  show ?case
  proof (cases "n < 10")
    case True
    then show ?thesis by (subst natDigits.simps) (simp add: digit_word)
  next
    case False
    then have "n mod 10 < 10" by simp
    then have "isDigit (0x30 + of_nat (n mod 10))" by (rule digit_word)
    with False 1 show ?thesis by (subst natDigits.simps) simp
  qed
qed

lemma natDigits_nonempty: "natDigits n \<noteq> []"
  by (subst natDigits.simps) simp

lemma natDigits_not_letter: "startsWithLetter k \<Longrightarrow> natDigits n \<noteq> k"
  using natDigits_digits[of n] natDigits_nonempty[of n]
  by (cases "natDigits n") (auto simp: startsWithLetter_def split: list.splits)

lemma array_has_no_named_property:
  assumes "startsWithLetter k" and "k \<noteq> ascii ''length''"
  shows "\<not> hasProperty k (JArr xs)"
proof -
  have "k \<notin> set (map natDigits [0..<length xs])"
    using natDigits_not_letter[OF assms(1)] by auto
  moreover have "set (map fst (zip (map natDigits [0..<length xs]) xs))
                 \<subseteq> set (map natDigits [0..<length xs])"
    by (auto dest: set_zip_leftD)
  ultimately show ?thesis using assms(2) by (auto simp: hasProperty_def ownProps_def)
qed


lemma parseExplained_guard:
  "parseExplained text =
     (case JSON_parse (stripCodeFence text) of
        Inl e \<Rightarrow> None
      | Inr obj \<Rightarrow>
          if ToBoolean (Some obj) \<and> typeofObject obj
             \<and> hasProperty (ascii ''corrected'') obj
             \<and> hasProperty (ascii ''explanation'') obj
             \<and> hasProperty (ascii ''naturalSuggestion'') obj
             \<and> hasProperty (ascii ''score'') obj
          then parseExplained text
          else None)"
  by (simp add: parseExplained_def parseExplained_try_def bindE_def Let_def split: sum.splits)

lemma parseInformal_guard:
  "parseInformal text =
     (case JSON_parse (stripCodeFence text) of
        Inl e \<Rightarrow> None
      | Inr obj \<Rightarrow>
          if ToBoolean (Some obj) \<and> typeofObject obj
             \<and> hasProperty (ascii ''informal'') obj
             \<and> hasProperty (ascii ''alreadyCorrect'') obj
             \<and> hasProperty (ascii ''translation'') obj
          then parseInformal text
          else None)"
  by (simp add: parseInformal_def parseInformal_try_def bindE_def Let_def split: sum.splits)

lemma not_object_fails_guard:
  assumes "\<not> isJObj v" and "startsWithLetter k" and "k \<noteq> ascii ''length''"
  shows "\<not> (ToBoolean (Some v) \<and> typeofObject v \<and> hasProperty k v)"
proof (cases v)
  case (JArr xs)
  then show ?thesis using array_has_no_named_property[OF assms(2,3)] by simp
next
  case (JObj ms)
  with assms(1) show ?thesis by (simp add: isJObj_def)
qed (simp_all add: ToBoolean_def typeofObject_def)

lemma corrected_is_name:
  "startsWithLetter (ascii ''corrected'')" "ascii ''corrected'' \<noteq> ascii ''length''"
  by (simp_all add: startsWithLetter_def ascii_def isDigit_def)

lemma informal_is_name:
  "startsWithLetter (ascii ''informal'')" "ascii ''informal'' \<noteq> ascii ''length''"
  by (simp_all add: startsWithLetter_def ascii_def isDigit_def)

lemma parseExplained_fails:
  assumes "case JSON_parse (stripCodeFence text) of
             Inl e \<Rightarrow> True
           | Inr v \<Rightarrow> \<not> isJObj v
                      \<or> (\<exists>k \<in> set [ascii ''corrected'', ascii ''explanation'',
                                      ascii ''naturalSuggestion'', ascii ''score''].
                            \<not> hasProperty k v)"
  shows "parseExplained text = None"
proof (cases "JSON_parse (stripCodeFence text)")
  case (Inl e)
  then show ?thesis by (subst parseExplained_guard) simp
next
  case (Inr v)
  with assms consider "\<not> isJObj v"
    | "\<not> hasProperty (ascii ''corrected'') v \<or> \<not> hasProperty (ascii ''explanation'') v
       \<or> \<not> hasProperty (ascii ''naturalSuggestion'') v \<or> \<not> hasProperty (ascii ''score'') v"
    by auto
  then show ?thesis
  proof cases
    case 1
    then have "\<not> (ToBoolean (Some v) \<and> typeofObject v \<and> hasProperty (ascii ''corrected'') v)"
      using corrected_is_name by (rule not_object_fails_guard)
    with Inr show ?thesis by (subst parseExplained_guard) auto
  next
    case 2
    with Inr show ?thesis by (subst parseExplained_guard) auto
  qed
qed

lemma parseInformal_fails:
  assumes "case JSON_parse (stripCodeFence text) of
             Inl e \<Rightarrow> True
           | Inr v \<Rightarrow> \<not> isJObj v
                      \<or> (\<exists>k \<in> set [ascii ''informal'', ascii ''alreadyCorrect'',
                                      ascii ''translation''].
                            \<not> hasProperty k v)"
  shows "parseInformal text = None"
proof (cases "JSON_parse (stripCodeFence text)")
  case (Inl e)
  then show ?thesis by (subst parseInformal_guard) simp
next
  case (Inr v)
  with assms consider "\<not> isJObj v"
    | "\<not> hasProperty (ascii ''informal'') v \<or> \<not> hasProperty (ascii ''alreadyCorrect'') v
       \<or> \<not> hasProperty (ascii ''translation'') v"
    by auto
  then show ?thesis
  proof cases
    case 1
    then have "\<not> (ToBoolean (Some v) \<and> typeofObject v \<and> hasProperty (ascii ''informal'') v)"
      using informal_is_name by (rule not_object_fails_guard)
    with Inr show ?thesis by (subst parseInformal_guard) auto
  next
    case 2
    with Inr show ?thesis by (subst parseInformal_guard) auto
  qed
qed

lemma AssistantMessage_fallback:
  "(m = Explain \<longrightarrow> parseExplained text = None) \<Longrightarrow>
   (m = Informal \<longrightarrow> parseInformal text = None) \<Longrightarrow>
   AssistantMessage text m lang = RawText text (speakButton text lang)"
  by (simp add: AssistantMessage_def Let_def)


lemma getProp_hasProperty: "getProp v k = Some x \<Longrightarrow> hasProperty k v"
  unfolding getProp_def hasProperty_def by (auto dest: map_of_SomeD intro: rev_image_eqI)

lemma parseExplained_nulls:
  assumes p: "JSON_parse (stripCodeFence text) = Inr (JObj ms)"
    and n: "\<forall>k \<in> set [ascii ''corrected'', ascii ''translation'', ascii ''explanation'',
                         ascii ''naturalSuggestion'', ascii ''score''].
              getProp (JObj ms) k = Some JNull"
  shows "parseExplained text =
           Some \<lparr> corrected = [], Explained.translation = [], explanation = [],
                  naturalSuggestion = [], score = Dec 0 0 \<rparr>"
proof -
  from n have g: "getProp (JObj ms) (ascii ''corrected'') = Some JNull"
    "getProp (JObj ms) (ascii ''translation'') = Some JNull"
    "getProp (JObj ms) (ascii ''explanation'') = Some JNull"
    "getProp (JObj ms) (ascii ''naturalSuggestion'') = Some JNull"
    "getProp (JObj ms) (ascii ''score'') = Some JNull"
    by simp_all
  have h: "hasProperty (ascii ''corrected'') (JObj ms)"
    "hasProperty (ascii ''explanation'') (JObj ms)"
    "hasProperty (ascii ''naturalSuggestion'') (JObj ms)"
    "hasProperty (ascii ''score'') (JObj ms)"
    using g by (auto intro: getProp_hasProperty)
  show ?thesis
    unfolding parseExplained_def parseExplained_try_def Let_def p
    by (simp add: bindE_def h g ToBoolean_def typeofObject_def nullish_def ToNumber_def
                  nullishNum_def)
qed

lemma parseInformal_nulls:
  assumes p: "JSON_parse (stripCodeFence text) = Inr (JObj ms)"
    and n: "\<forall>k \<in> set [ascii ''informal'', ascii ''alreadyCorrect'', ascii ''translation''].
              getProp (JObj ms) k = Some JNull"
  shows "parseInformal text =
           Some \<lparr> informal = [], alreadyCorrect = False, InformalResponse.translation = [] \<rparr>"
proof -
  from n have g: "getProp (JObj ms) (ascii ''informal'') = Some JNull"
    "getProp (JObj ms) (ascii ''alreadyCorrect'') = Some JNull"
    "getProp (JObj ms) (ascii ''translation'') = Some JNull"
    by simp_all
  have h: "hasProperty (ascii ''informal'') (JObj ms)"
    "hasProperty (ascii ''alreadyCorrect'') (JObj ms)"
    "hasProperty (ascii ''translation'') (JObj ms)"
    using g by (auto intro: getProp_hasProperty)
  show ?thesis
    unfolding parseInformal_def parseInformal_try_def Let_def p
    by (simp add: bindE_def h g ToBoolean_def typeofObject_def nullish_def)
qed

section \<open>Claims about the decoders and the rendering\<close>

text \<open>
  Decode failures. In the structured modes the decoders never raise: whatever
  \<open>JSON.parse\<close> or a conversion throws is caught. Where parsing throws, the parsed value
  is not an object (an array included), or one of the keys that the decoder tests is
  absent, the decoder returns null; and whenever the decoder of the active mode returns
  null, \<open>AssistantMessage\<close> shows the provider text as it is. The keys tested are those
  of the guards in the source: \<open>corrected\<close>, \<open>explanation\<close>, \<open>naturalSuggestion\<close>,
  \<open>score\<close> for \<open>explain\<close>, and \<open>informal\<close>, \<open>alreadyCorrect\<close>, \<open>translation\<close> for
  \<open>informal\<close>.
\<close>

lemma decode_failure_falls_back:
  "((case JSON_parse (stripCodeFence text) of
       Inl e \<Rightarrow> True
     | Inr v \<Rightarrow> \<not> isJObj v
                \<or> (\<exists>k \<in> set [ascii ''corrected'', ascii ''explanation'',
                                ascii ''naturalSuggestion'', ascii ''score''].
                      \<not> hasProperty k v))
     \<longrightarrow> parseExplained text = None)
   \<and> ((case JSON_parse (stripCodeFence text) of
          Inl e \<Rightarrow> True
        | Inr v \<Rightarrow> \<not> isJObj v
                   \<or> (\<exists>k \<in> set [ascii ''informal'', ascii ''alreadyCorrect'',
                                   ascii ''translation''].
                         \<not> hasProperty k v))
     \<longrightarrow> parseInformal text = None)
   \<and> (parseExplained text = None
        \<longrightarrow> AssistantMessage text Explain lang = RawText text (speakButton text lang))
   \<and> (parseInformal text = None
        \<longrightarrow> AssistantMessage text Informal lang = RawText text (speakButton text lang))"
proof (intro conjI impI)
  show "parseExplained text = None"
    if "case JSON_parse (stripCodeFence text) of
          Inl e \<Rightarrow> True
        | Inr v \<Rightarrow> \<not> isJObj v
                   \<or> (\<exists>k \<in> set [ascii ''corrected'', ascii ''explanation'',
                                   ascii ''naturalSuggestion'', ascii ''score''].
                         \<not> hasProperty k v)"
    using that by (rule parseExplained_fails)
  show "parseInformal text = None"
    if "case JSON_parse (stripCodeFence text) of
          Inl e \<Rightarrow> True
        | Inr v \<Rightarrow> \<not> isJObj v
                   \<or> (\<exists>k \<in> set [ascii ''informal'', ascii ''alreadyCorrect'',
                                   ascii ''translation''].
                         \<not> hasProperty k v)"
    using that by (rule parseInformal_fails)
  show "AssistantMessage text Explain lang = RawText text (speakButton text lang)"
    if "parseExplained text = None"
    using that by (simp add: AssistantMessage_fallback)
  show "AssistantMessage text Informal lang = RawText text (speakButton text lang)"
    if "parseInformal text = None"
    using that by (simp add: AssistantMessage_fallback)
qed

text \<open>
  C4 fails on the code at one place, the one of C1: in mode \<open>explain\<close> an object without
  the key \<open>translation\<close> is no decode failure. The decoder returns the shape, and
  \<open>AssistantMessage\<close> shows the card and not the raw text. For the keys that the guards
  do test, and for texts that do not parse or are no object, the fallback to the raw text
  is \<open>decode_failure_falls_back\<close>.
\<close>

theorem missing_translation_shows_card:
  \<open>AssistantMessage
     (ascii ''{"corrected":"a","explanation":"b","naturalSuggestion":"c","score":7}'')
     Explain En
   = ExplainedCard
       \<lparr> corrected = ascii ''a'', Explained.translation = [], explanation = ascii ''b'',
         naturalSuggestion = ascii ''c'', score = Dec 7 0 \<rparr>
       (Some (ascii ''c'', En))\<close>
  by code_simp

text \<open>
  C10. Both decoders test that the keys are there, not what they hold: an object that
  binds every key of the shape to \<open>null\<close> decodes, every string field to the empty string,
  the score to 0 and \<open>alreadyCorrect\<close> to false.
\<close>

theorem decoders_accept_null_fields:
  "JSON_parse (stripCodeFence text) = Inr (JObj ms) \<Longrightarrow>
   ((\<forall>k \<in> set [ascii ''corrected'', ascii ''translation'', ascii ''explanation'',
                ascii ''naturalSuggestion'', ascii ''score''].
       getProp (JObj ms) k = Some JNull)
    \<longrightarrow> parseExplained text =
          Some \<lparr> corrected = [], Explained.translation = [], explanation = [],
                 naturalSuggestion = [], score = Dec 0 0 \<rparr>)
   \<and> ((\<forall>k \<in> set [ascii ''informal'', ascii ''alreadyCorrect'', ascii ''translation''].
          getProp (JObj ms) k = Some JNull)
       \<longrightarrow> parseInformal text =
             Some \<lparr> informal = [], alreadyCorrect = False, InformalResponse.translation = [] \<rparr>)"
  using parseExplained_nulls parseInformal_nulls by blast

theorem decoders_accept_null_fields_witness:
  \<open>parseExplained (ascii ''{"corrected":null,"translation":null,"explanation":null,"naturalSuggestion":null,"score":null}'')
     = Some \<lparr> corrected = [], Explained.translation = [], explanation = [],
              naturalSuggestion = [], score = Dec 0 0 \<rparr>
   \<and> parseInformal (ascii ''{"informal":null,"alreadyCorrect":null,"translation":null}'')
     = Some \<lparr> informal = [], alreadyCorrect = False, InformalResponse.translation = [] \<rparr>\<close>
proof -
  have e: \<open>JSON_parse (stripCodeFence (ascii ''{"corrected":null,"translation":null,"explanation":null,"naturalSuggestion":null,"score":null}''))
           = Inr (JObj [(ascii ''corrected'', JNull), (ascii ''translation'', JNull),
                        (ascii ''explanation'', JNull), (ascii ''naturalSuggestion'', JNull),
                        (ascii ''score'', JNull)])\<close>
    by code_simp
  have i: \<open>JSON_parse (stripCodeFence (ascii ''{"informal":null,"alreadyCorrect":null,"translation":null}''))
           = Inr (JObj [(ascii ''informal'', JNull), (ascii ''alreadyCorrect'', JNull),
                        (ascii ''translation'', JNull)])\<close>
    by code_simp
  have ke: \<open>\<forall>k \<in> set [ascii ''corrected'', ascii ''translation'', ascii ''explanation'',
                       ascii ''naturalSuggestion'', ascii ''score''].
             getProp (JObj [(ascii ''corrected'', JNull), (ascii ''translation'', JNull),
                        (ascii ''explanation'', JNull), (ascii ''naturalSuggestion'', JNull),
                        (ascii ''score'', JNull)]) k = Some JNull\<close>
    by code_simp
  have ki: \<open>\<forall>k \<in> set [ascii ''informal'', ascii ''alreadyCorrect'', ascii ''translation''].
             getProp (JObj [(ascii ''informal'', JNull), (ascii ''alreadyCorrect'', JNull),
                        (ascii ''translation'', JNull)]) k = Some JNull\<close>
    by code_simp
  show ?thesis
    using decoders_accept_null_fields [OF e] decoders_accept_null_fields [OF i] ke ki
    by blast
qed

text \<open>
  C1 fails on the code: the guard of \<open>parseExplained\<close> tests four keys and leaves out
  \<open>translation\<close>, which \<open>parseInformal\<close> does test. An object without \<open>translation\<close>
  decodes, with the empty string in its place.
\<close>

theorem parseExplained_without_translation:
  \<open>parseExplained (ascii ''{"corrected":"a","explanation":"b","naturalSuggestion":"c","score":7}'')
     = Some \<lparr> corrected = ascii ''a'', Explained.translation = [], explanation = ascii ''b'',
              naturalSuggestion = ascii ''c'', score = Dec 7 0 \<rparr>\<close>
  by code_simp

text \<open>
  C3 fails on the code for the third value: \<open>Number("seven")\<close> is not-a-number, which
  is neither \<open>null\<close> nor \<open>undefined\<close>, so \<open>?? 0\<close> lets it through. The scores
  \<open>"7"\<close> and \<open>7\<close> decode to 7.
\<close>

theorem score_coercion_keeps_NaN:
  \<open>map_option score (parseExplained (ascii ''{"corrected":"a","explanation":"b","naturalSuggestion":"c","score":"7"}''))
     = Some (Dec 7 0)
   \<and> map_option score (parseExplained (ascii ''{"corrected":"a","explanation":"b","naturalSuggestion":"c","score":7}''))
     = Some (Dec 7 0)
   \<and> map_option score (parseExplained (ascii ''{"corrected":"a","explanation":"b","naturalSuggestion":"c","score":"seven"}''))
     = Some NaN\<close>
  by code_simp

text \<open>
  C2, as the code has it. In the modes \<open>translate\<close> and \<open>correct\<close> no decoder runs and
  nothing is stripped: the provider text is shown as it is, fences and surrounding white
  space included.
\<close>

theorem raw_modes_show_text_verbatim:
  "m = Translate \<or> m = Correct \<Longrightarrow>
   AssistantMessage text m lang = RawText text (speakButton text lang)"
  by (rule AssistantMessage_fallback) auto

theorem raw_modes_show_text_verbatim_witness:
  "(Correct = Translate \<or> Correct = Correct)
   \<and> AssistantMessage (ascii ''I went to school yesterday.'') Correct En
       = RawText (ascii ''I went to school yesterday.'')
                 (Some (ascii ''I went to school yesterday.'', En))"
  using raw_modes_show_text_verbatim [of Correct "ascii ''I went to school yesterday.''" En]
  by (simp add: speakButton_def ascii_def)

text \<open>
  C2 as stated fails: in mode \<open>correct\<close> a fenced text is shown with its fences, which is
  not the stripped text.
\<close>

theorem raw_modes_keep_fences_counterexample:
  "AssistantMessage (ascii ''```hi```'') Correct En
     = RawText (ascii ''```hi```'') (Some (ascii ''```hi```'', En))
   \<and> stripCodeFence (ascii ''```hi```'') = ascii ''hi''
   \<and> AssistantMessage (ascii ''```hi```'') Correct En
     \<noteq> RawText (stripCodeFence (ascii ''```hi```''))
               (speakButton (stripCodeFence (ascii ''```hi```'')) En)"
  by code_simp

section \<open>Properties of the endpoint\<close>

lemma copy_messages: "map (\<lambda>m. \<lparr> role = role m, content = content m \<rparr>) ms = ms"
  by (induction ms) simp_all

lemma getGroq_present: "k \<noteq> [] \<Longrightarrow> getGroq (Some k) = Inr k"
  by (simp add: getGroq_def)

lemma getGroq_absent:
  "key = None \<or> key = Some [] \<Longrightarrow>
   getGroq key = Inl (ErrorObj (ascii ''GROQ_API_KEY n'' @ [0xE3] @ ascii ''o configurada.''))"
  by (auto simp: getGroq_def)

lemma POST_calls:
  "snd (POST key req provider) =
     (case req of
        Inl err \<Rightarrow> []
      | Inr b \<Rightarrow>
          (case getGroq key of
             Inl err \<Rightarrow> []
           | Inr groq \<Rightarrow>
               [\<lparr> model = GROQ_MODEL,
                  CompletionParams.messages =
                    \<lparr> role = System, content = systemPrompt (language b) (mode b) \<rparr>
                    # RequestBody.messages b,
                  temperature = Dec 3 (- 1) \<rparr>]))"
  by (simp add: POST_def Let_def copy_messages split: sum.splits)

lemma POST_calls_key:
  "snd (POST key req provider) = [p] \<Longrightarrow> \<exists>k. key = Some k \<and> getGroq key = Inr k"
  by (auto simp: POST_calls getGroq_def split: sum.splits option.splits if_splits)

lemma POST_response:
  assumes "snd (POST (Some k) req provider) = [p]"
  shows "fst (POST (Some k) req provider) =
           (case provider k p of
              Inl err \<Rightarrow> errorResponse err
            | Inr completion \<Rightarrow> \<lparr> status = 200, body = ContentBody (firstContent completion) \<rparr>)"
proof -
  from assms obtain b where b: "req = Inr b"
    by (cases req) (simp_all add: POST_calls)
  from assms have g: "getGroq (Some k) = Inr k" using POST_calls_key by fastforce
  from assms b g have p: "p = \<lparr> model = GROQ_MODEL,
                  CompletionParams.messages =
                    \<lparr> role = System, content = systemPrompt (language b) (mode b) \<rparr>
                    # RequestBody.messages b,
                  temperature = Dec 3 (- 1) \<rparr>"
    by (simp add: POST_calls)
  show ?thesis
    unfolding p b by (simp add: POST_def Let_def g copy_messages split: sum.splits)
qed

lemma makeRequest_sent:
  "sent < snd (makeRequest fetch sent r) \<and> snd (makeRequest fetch sent r) \<le> Suc (sent + r)"
proof (induction r arbitrary: sent)
  case 0
  then show ?case by (simp split: fetchOutcome.splits)
next
  case (Suc r)
  have "sent < snd (makeRequest fetch (Suc sent) r) \<and> snd (makeRequest fetch (Suc sent) r) \<le> Suc (Suc sent + r)"
    using Suc[of "Suc sent"] by simp
  then show ?case by (simp split: fetchOutcome.splits)
qed

lemma create_requests: "1 \<le> snd (create network k p) \<and> snd (create network k p) \<le> 3"
  using makeRequest_sent[of 0 "network k p" 2] by (simp add: create_def DEFAULT_MAX_RETRIES_def)

lemma create_requests_exact:
  "snd (create network k p) =
     (if \<not> retried (network k p 0) then 1
      else if \<not> retried (network k p 1) then 2
      else 3)"
  by (auto simp: create_def DEFAULT_MAX_RETRIES_def numeral_2_eq_2 retried_def
           split: fetchOutcome.splits)

lemma makeRequest_error:
  "fst (makeRequest fetch sent r) = Inl err \<Longrightarrow> \<exists>msg. err = ErrorObj msg"
proof (induction r arbitrary: sent)
  case 0
  then show ?case by (auto split: fetchOutcome.splits)
next
  case (Suc r)
  then show ?case by (auto split: fetchOutcome.splits if_splits)
qed


lemma POST_over_network_requests:
  "snd (POST_over_network key req network) =
     (case req of
        Inl err \<Rightarrow> 0
      | Inr b \<Rightarrow>
          (case getGroq key of
             Inl err \<Rightarrow> 0
           | Inr groq \<Rightarrow>
               snd (create network groq
                      \<lparr> model = GROQ_MODEL,
                        CompletionParams.messages =
                          \<lparr> role = System, content = systemPrompt (language b) (mode b) \<rparr>
                          # RequestBody.messages b,
                        temperature = Dec 3 (- 1) \<rparr>)))"
proof (cases req)
  case (Inl err)
  then show ?thesis by (simp add: POST_over_network_def Let_def POST_calls split: sum.splits)
next
  case b: (Inr b)
  show ?thesis
  proof (cases "getGroq key")
    case (Inl err)
    with b show ?thesis by (simp add: POST_over_network_def Let_def)
  next
    case (Inr groq)
    with b show ?thesis by (simp add: POST_over_network_def Let_def POST_calls)
  qed
qed

section \<open>Claims about the endpoint\<close>

text \<open>
  C5. With a key in the environment, a request is answered through exactly one call to
  the provider: the fixed model, temperature 0.3, and as messages the directive of
  \<open>systemPrompt\<close> for the language and mode, in the role \<open>system\<close>, followed by the
  history as it came.
\<close>

theorem POST_sends_one_call:
  "k \<noteq> [] \<Longrightarrow>
   snd (POST (Some k) (Inr b) provider) =
     [\<lparr> model = GROQ_MODEL,
        CompletionParams.messages =
          \<lparr> role = System, content = systemPrompt (language b) (mode b) \<rparr>
          # RequestBody.messages b,
        temperature = Dec 3 (- 1) \<rparr>]"
  by (simp add: POST_calls getGroq_present)

theorem POST_sends_one_call_witness:
  "ascii ''gsk'' \<noteq> []
   \<and> snd (POST (Some (ascii ''gsk''))
              (Inr \<lparr> language = En, mode = Correct,
                     RequestBody.messages =
                       [\<lparr> role = User, content = ascii ''I go to school yesterday'' \<rparr>] \<rparr>)
              (\<lambda>groq p. Inl OtherThrown))
     = [\<lparr> model = ascii ''llama-3.1-8b-instant'',
          CompletionParams.messages =
            [\<lparr> role = System, content = systemPrompt En Correct \<rparr>,
             \<lparr> role = User, content = ascii ''I go to school yesterday'' \<rparr>],
          temperature = Dec 3 (- 1) \<rparr>]"
  using POST_sends_one_call [of "ascii ''gsk''"
          "\<lparr> language = En, mode = Correct,
              RequestBody.messages =
                [\<lparr> role = User, content = ascii ''I go to school yesterday'' \<rparr>] \<rparr>"
          "\<lambda>groq p. Inl OtherThrown"]
  by (simp add: GROQ_MODEL_def ascii_def)

text \<open>
  C6, as the code has it. Without a key (not set, or empty) the endpoint answers with
  status 500 and the message of \<open>getGroq\<close>; \<open>create\<close> is not called and no request is
  sent, whatever the mode and language. The endpoint calls \<open>create\<close> at most once and
  retries nothing itself, and when that call fails the answer is status 500 with a single
  message: that of the error, or the fixed text when the thrown value is no error. The
  client, however, sends a request again after an attempt that failed in a way it
  retries, twice at most: a turn sends one request when the first attempt is not of that
  kind, two when the first is and the second is not, and three otherwise.
\<close>

theorem failure_is_one_message_retries_by_client:
  "((key = None \<or> key = Some []) \<longrightarrow>
      POST key (Inr b) provider =
        (\<lparr> status = 500,
           body = ErrorBody (ascii ''GROQ_API_KEY n'' @ [0xE3] @ ascii ''o configurada.'') \<rparr>, [])
      \<and> snd (POST_over_network key req network) = 0)
   \<and> length (snd (POST key req provider)) \<le> 1
   \<and> (snd (POST (Some k) req provider) = [p] \<and> provider k p = Inl err \<longrightarrow>
        fst (POST (Some k) req provider) =
          \<lparr> status = 500,
            body = ErrorBody (case err of
                                ErrorObj msg \<Rightarrow> msg
                              | OtherThrown \<Rightarrow> ascii ''Erro ao processar.'') \<rparr>)
   \<and> snd (POST_over_network key req network) \<le> 3
   \<and> (snd (POST (Some k) req provider) = [p] \<longrightarrow>
        snd (POST_over_network (Some k) req network) =
          (if \<not> retried (network k p 0) then 1
           else if \<not> retried (network k p 1) then 2
           else 3))"
proof (intro conjI impI)
  assume a: "key = None \<or> key = Some []"
  show "POST key (Inr b) provider =
        (\<lparr> status = 500,
           body = ErrorBody (ascii ''GROQ_API_KEY n'' @ [0xE3] @ ascii ''o configurada.'') \<rparr>, [])"
    using getGroq_absent[OF a] by (simp add: POST_def errorResponse_def)
  show "snd (POST_over_network key req network) = 0"
    unfolding POST_over_network_requests getGroq_absent[OF a] by (simp split: sum.splits)
next
  show "length (snd (POST key req provider)) \<le> 1"
    by (simp add: POST_calls split: sum.splits)
next
  assume "snd (POST (Some k) req provider) = [p] \<and> provider k p = Inl err"
  then show "fst (POST (Some k) req provider) =
          \<lparr> status = 500,
            body = ErrorBody (case err of
                                ErrorObj msg \<Rightarrow> msg
                              | OtherThrown \<Rightarrow> ascii ''Erro ao processar.'') \<rparr>"
    using POST_response[of k req provider p] by (simp add: errorResponse_def)
next
  show "snd (POST_over_network key req network) \<le> 3"
    using create_requests by (simp add: POST_over_network_requests split: sum.splits)
next
  assume c: "snd (POST (Some k) req provider) = [p]"
  then obtain b where b: "req = Inr b" by (cases req) (simp_all add: POST_calls)
  from c have g: "getGroq (Some k) = Inr k" using POST_calls_key by fastforce
  from c b g have p: "p = \<lparr> model = GROQ_MODEL,
                  CompletionParams.messages =
                    \<lparr> role = System, content = systemPrompt (language b) (mode b) \<rparr>
                    # RequestBody.messages b,
                  temperature = Dec 3 (- 1) \<rparr>"
    by (simp add: POST_calls)
  have "snd (POST_over_network (Some k) req network) = snd (create network k p)"
    unfolding p b by (simp add: POST_over_network_requests g)
  then show "snd (POST_over_network (Some k) req network) =
          (if \<not> retried (network k p 0) then 1
           else if \<not> retried (network k p 1) then 2
           else 3)"
    by (simp only: create_requests_exact)
qed

text \<open>
  The theorem without a key, at a failing call, and at a network that refuses the key
  with status 401, which is not retried.
\<close>

theorem failure_is_one_message_retries_by_client_witness:
  "POST None (Inr \<lparr> language = De, mode = Explain, RequestBody.messages = [] \<rparr>)
        (\<lambda>groq p. Inr \<lparr> choices = [] \<rparr>)
     = (\<lparr> status = 500,
          body = ErrorBody (ascii ''GROQ_API_KEY n'' @ [0xE3] @ ascii ''o configurada.'') \<rparr>, [])
   \<and> snd (POST_over_network None
            (Inr \<lparr> language = De, mode = Explain, RequestBody.messages = [] \<rparr>)
            (\<lambda>groq p n. NoConnection)) = 0
   \<and> fst (POST (Some (ascii ''gsk''))
              (Inr \<lparr> language = De, mode = Explain, RequestBody.messages = [] \<rparr>)
              (\<lambda>groq p. Inl (ErrorObj (ascii ''Connection error.''))))
     = \<lparr> status = 500, body = ErrorBody (ascii ''Connection error.'') \<rparr>
   \<and> snd (POST_over_network (Some (ascii ''gsk''))
            (Inr \<lparr> language = De, mode = Explain, RequestBody.messages = [] \<rparr>)
            (\<lambda>groq p n. Refused 401 None (ascii ''401 Invalid API Key''))) = 1"
proof -
  let ?b = "\<lparr> language = De, mode = Explain, RequestBody.messages = [] \<rparr>"
  let ?p = "\<lparr> model = GROQ_MODEL,
              CompletionParams.messages = [\<lparr> role = System, content = systemPrompt De Explain \<rparr>],
              temperature = Dec 3 (- 1) \<rparr>"
  let ?e = "ErrorObj (ascii ''Connection error.'')"
  have c: "snd (POST (Some (ascii ''gsk'')) (Inr ?b) (\<lambda>groq p. Inl ?e)) = [?p]"
    by (simp add: POST_calls getGroq_def ascii_def)
  have k: "ascii ''gsk'' \<noteq> []" by (simp add: ascii_def)
  have n: "\<not> retried (Refused 401 None (ascii ''401 Invalid API Key''))"
    by (simp add: retried_def shouldRetry_def)
  show ?thesis
    using failure_is_one_message_retries_by_client
            [of None ?b "\<lambda>groq p. Inr \<lparr> choices = [] \<rparr>" "Inr ?b" "\<lambda>groq p n. NoConnection"
                "ascii ''gsk''" ?p ?e]
          failure_is_one_message_retries_by_client
            [of None ?b "\<lambda>groq p. Inl ?e" "Inr ?b"
                "\<lambda>groq p n. Refused 401 None (ascii ''401 Invalid API Key'')"
                "ascii ''gsk''" ?p ?e]
          c k n
    by simp
qed

text \<open>
  C6 as stated fails in its last part: with no connection the client sends the request of
  one turn three times before the error reaches the endpoint.
\<close>

theorem failed_request_is_resent_counterexample:
  "POST_over_network (Some (ascii ''gsk''))
     (Inr \<lparr> language = En, mode = Correct,
            RequestBody.messages =
              [\<lparr> role = User, content = ascii ''I go to school yesterday'' \<rparr>] \<rparr>)
     (\<lambda>groq params n. NoConnection)
   = (\<lparr> status = 500, body = ErrorBody (ascii ''Connection error.'') \<rparr>, 3)"
  by code_simp

text \<open>
  C7. When the call that was sent succeeds, the answer has status 200 and carries the
  content of the first choice, trimmed; it carries the empty string when there is no
  choice, no message or no content.
\<close>

theorem success_returns_trimmed_first_content:
  "snd (POST (Some k) req provider) = [p] \<Longrightarrow> provider k p = Inr completion \<Longrightarrow>
   fst (POST (Some k) req provider) =
     \<lparr> status = 200,
       body = ContentBody
                (case choices completion of
                   Choice (Some (ChoiceMessage (Some text))) # rest \<Rightarrow> trim text
                 | _ \<Rightarrow> []) \<rparr>"
proof -
  assume "snd (POST (Some k) req provider) = [p]" and "provider k p = Inr completion"
  then have "fst (POST (Some k) req provider) =
               \<lparr> status = 200, body = ContentBody (firstContent completion) \<rparr>"
    using POST_response[of k req provider p] by simp
  moreover have "firstContent completion =
                   (case choices completion of
                      Choice (Some (ChoiceMessage (Some text))) # rest \<Rightarrow> trim text
                    | _ \<Rightarrow> [])"
    by (simp add: firstContent_def split: list.splits Choice.splits option.splits
                  ChoiceMessage.splits)
  ultimately show ?thesis by simp
qed

text \<open>
  The theorem at scenario A of the spec, where the provider pads its answer with blanks,
  and at a completion without choices.
\<close>

theorem success_returns_trimmed_first_content_witness:
  "fst (POST (Some (ascii ''gsk''))
             (Inr \<lparr> language = En, mode = Correct,
                    RequestBody.messages =
                      [\<lparr> role = User, content = ascii ''I go to school yesterday'' \<rparr>] \<rparr>)
             (\<lambda>groq p. Inr \<lparr> choices =
                [Choice (Some (ChoiceMessage (Some (ascii '' I went to school yesterday. ''))))] \<rparr>))
     = \<lparr> status = 200, body = ContentBody (ascii ''I went to school yesterday.'') \<rparr>
   \<and> fst (POST (Some (ascii ''gsk''))
             (Inr \<lparr> language = En, mode = Correct,
                    RequestBody.messages =
                      [\<lparr> role = User, content = ascii ''I go to school yesterday'' \<rparr>] \<rparr>)
             (\<lambda>groq p. Inr \<lparr> choices = [] \<rparr>))
     = \<lparr> status = 200, body = ContentBody [] \<rparr>"
proof -
  let ?b = "\<lparr> language = En, mode = Correct,
              RequestBody.messages =
                [\<lparr> role = User, content = ascii ''I go to school yesterday'' \<rparr>] \<rparr>"
  let ?p = "\<lparr> model = GROQ_MODEL,
              CompletionParams.messages =
                [\<lparr> role = System, content = systemPrompt En Correct \<rparr>,
                 \<lparr> role = User, content = ascii ''I go to school yesterday'' \<rparr>],
              temperature = Dec 3 (- 1) \<rparr>"
  let ?c = "\<lparr> choices =
              [Choice (Some (ChoiceMessage (Some (ascii '' I went to school yesterday. ''))))] \<rparr>"
  have k: "getGroq (Some (ascii ''gsk'')) = Inr (ascii ''gsk'')"
    by (simp add: getGroq_def ascii_def)
  have c1: "snd (POST (Some (ascii ''gsk'')) (Inr ?b) (\<lambda>groq p. Inr ?c)) = [?p]"
    by (simp add: POST_calls k)
  have c2: "snd (POST (Some (ascii ''gsk'')) (Inr ?b) (\<lambda>groq p. Inr \<lparr> choices = [] \<rparr>)) = [?p]"
    by (simp add: POST_calls k)
  have t: "trim (ascii '' I went to school yesterday. '') = ascii ''I went to school yesterday.''"
    by code_simp
  show ?thesis
    using success_returns_trimmed_first_content [OF c1, of ?c]
          success_returns_trimmed_first_content [OF c2, of "\<lparr> choices = [] \<rparr>"]
    by (simp add: t)
qed

end
